theory Spec2Isabelle
  imports Main "HOL-Library.Sublist"
begin

section \<open>JavaScript values\<close>

text \<open>
  The cache results, payloads and items handled by \<^verbatim>\<open>src/offline.ts\<close> are JSON-like
  values. An object is the list of its own enumerable properties in enumeration order
  (the order of \<^verbatim>\<open>Object.keys\<close>); GraphQL response keys are names, never integer-like,
  so enumeration order is insertion order. Numbers are restricted to integers, on which
  \<^verbatim>\<open>===\<close> is equality.
\<close>

datatype jsval =
    Undefined
  | Null
  | JBool bool
  | JNum int
  | JStr string
  | JArr "jsval list"
  | JObj "(string \<times> jsval) list"

datatype jserror = TypeError | Thrown string

text \<open>\<^verbatim>\<open>!v\<close> is \<open>\<not> truthy v\<close>.\<close>

fun truthy :: "jsval \<Rightarrow> bool" where
  "truthy Undefined = False"
| "truthy Null = False"
| "truthy (JBool b) = b"
| "truthy (JNum n) = (n \<noteq> 0)"
| "truthy (JStr s) = (s \<noteq> [])"
| "truthy (JArr xs) = True"
| "truthy (JObj fs) = True"

fun nullish :: "jsval \<Rightarrow> bool" where
  "nullish Undefined = True"
| "nullish Null = True"
| "nullish v = False"

text \<open>\<^verbatim>\<open>Array.isArray\<close>.\<close>

fun isArray :: "jsval \<Rightarrow> bool" where
  "isArray (JArr xs) = True"
| "isArray v = False"

text \<open>
  \<^verbatim>\<open>a === b\<close>: no coercion; scalars of the same type compare by value. Arrays and
  objects compare by reference in JavaScript; the values here carry no references, and an
  identity value read from a cache result and one read from a payload are separate
  allocations, so two composite values are never strictly equal.
\<close>

fun strict_eq :: "jsval \<Rightarrow> jsval \<Rightarrow> bool" where
  "strict_eq Undefined Undefined = True"
| "strict_eq Null Null = True"
| "strict_eq (JBool a) (JBool b) = (a = b)"
| "strict_eq (JNum a) (JNum b) = (a = b)"
| "strict_eq (JStr a) (JStr b) = (a = b)"
| "strict_eq a b = False"

text \<open>The decimal spelling of an array index, as a property key.\<close>

fun index_key :: "nat \<Rightarrow> string" where
  "index_key n =
     (if n < 10 then [''0123456789'' ! n]
      else index_key (n div 10) @ [''0123456789'' ! (n mod 10)])"

text \<open>
  The own enumerable string-keyed properties of a value, in enumeration order: the
  fields of an object, the indexed elements of an array, the indexed characters of a
  string, nothing for any other value.
\<close>

fun own_props :: "jsval \<Rightarrow> (string \<times> jsval) list" where
  "own_props (JObj fs) = fs"
| "own_props (JArr xs) = zip (map index_key [0..<length xs]) xs"
| "own_props (JStr s) = zip (map index_key [0..<length s]) (map (\<lambda>c. JStr [c]) s)"
| "own_props v = []"

text \<open>
  \<^verbatim>\<open>v[k]\<close> on a value that is neither \<^verbatim>\<open>null\<close> nor \<^verbatim>\<open>undefined\<close>: the own property,
  the \<^verbatim>\<open>length\<close> of an array or string, \<^verbatim>\<open>undefined\<close> otherwise. Members inherited
  from a prototype (\<^verbatim>\<open>constructor\<close>, \<^verbatim>\<open>toString\<close>) are not data fields and are not
  modelled.
\<close>

definition prop_of :: "jsval \<Rightarrow> string \<Rightarrow> jsval" where
  "prop_of v k =
     (case map_of (own_props v) k of
        Some x \<Rightarrow> x
      | None \<Rightarrow>
          (case v of
             JArr xs \<Rightarrow> if k = ''length'' then JNum (int (length xs)) else Undefined
           | JStr s \<Rightarrow> if k = ''length'' then JNum (int (length s)) else Undefined
           | _ \<Rightarrow> Undefined))"

text \<open>\<^verbatim>\<open>v[k]\<close> in general: reading a property of \<^verbatim>\<open>null\<close> or \<^verbatim>\<open>undefined\<close> throws.\<close>

definition get_prop :: "jsval \<Rightarrow> string \<Rightarrow> jserror + jsval" where
  "get_prop v k = (if nullish v then Inl TypeError else Inr (prop_of v k))"

text \<open>\<^verbatim>\<open>Object.keys(v)\<close> throws on \<^verbatim>\<open>null\<close> and \<^verbatim>\<open>undefined\<close>.\<close>

definition object_keys :: "jsval \<Rightarrow> jserror + string list" where
  "object_keys v = (if nullish v then Inl TypeError else Inr (map fst (own_props v)))"

text \<open>
  \<^verbatim>\<open>o[k] = x\<close> on the property list of an object: an existing key keeps its place and
  takes the new value, a new key is appended.
\<close>

fun set_field :: "string \<Rightarrow> 'v \<Rightarrow> (string \<times> 'v) list \<Rightarrow> (string \<times> 'v) list" where
  "set_field k x [] = [(k, x)]"
| "set_field k x (p # ps) = (if fst p = k then (k, x) # ps else p # set_field k x ps)"

text \<open>\<^verbatim>\<open>{...a, ...b}\<close> on property lists: the properties of \<open>b\<close> are assigned in order.\<close>

definition spread :: "(string \<times> 'v) list \<Rightarrow> (string \<times> 'v) list \<Rightarrow> (string \<times> 'v) list" where
  "spread a b = foldl (\<lambda>acc p. set_field (fst p) (snd p) acc) a b"

text \<open>Sequencing of computations that may throw.\<close>

definition bind_err :: "jserror + 'a \<Rightarrow> ('a \<Rightarrow> jserror + 'b) \<Rightarrow> jserror + 'b" where
  "bind_err m f = (case m of Inl e \<Rightarrow> Inl e | Inr x \<Rightarrow> f x)"

section \<open>Configuration and intent classification\<close>

datatype CacheOperationTypes = AUTO | ADD | REMOVE | UPDATE

text \<open>
  \<^verbatim>\<open>OfflineConfig\<close>, as held by the module-level \<^verbatim>\<open>offlineConfig\<close>: the three prefix
  lists and \<^verbatim>\<open>idField\<close> are always set there (the code reads them as present,
  \<^verbatim>\<open>row as [string[], CacheOperationTypes]\<close> and \<^verbatim>\<open>offlineConfig.idField!\<close>);
  \<^verbatim>\<open>getIdFieldFromObject\<close> is optional and may return nothing.
\<close>

record OfflineConfig =
  prefixesForRemove :: "string list"
  prefixesForUpdate :: "string list"
  prefixesForAdd :: "string list"
  getIdFieldFromObject :: "(jsval \<Rightarrow> jserror + string option) option"
  idField :: string

definition offlineConfig :: OfflineConfig where
  "offlineConfig =
     \<lparr> prefixesForRemove =
         [''delete'', ''deleted'', ''discard'', ''discarded'', ''erase'', ''erased'',
          ''remove'', ''removed''],
       prefixesForUpdate =
         [''update'', ''updated'', ''upsert'', ''upserted'', ''edit'', ''edited'',
          ''modify'', ''modified'', ''analyze'', ''activate''],
       prefixesForAdd =
         [''create'', ''created'', ''put'', ''set'', ''add'', ''added'', ''new'',
          ''insert'', ''inserted'', ''duplicate'', ''import''],
       getIdFieldFromObject = None,
       idField = ''id'' \<rparr>"

text \<open>
  \<^verbatim>\<open>String.prototype.toLowerCase\<close> on operation names. A GraphQL name is made of ASCII
  letters, digits and underscores, where lower-casing maps \<open>A\<close>..\<open>Z\<close> to \<open>a\<close>..\<open>z\<close>.
\<close>

definition lower_char :: "char \<Rightarrow> char" where
  "lower_char c =
     (case map_of (zip ''ABCDEFGHIJKLMNOPQRSTUVWXYZ'' ''abcdefghijklmnopqrstuvwxyz'') c of
        Some l \<Rightarrow> l
      | None \<Rightarrow> c)"

definition toLowerCase :: "string \<Rightarrow> string" where
  "toLowerCase s = map lower_char s"

definition startsWith :: "string \<Rightarrow> string \<Rightarrow> bool" where
  "startsWith s p = (take (length p) s = p)"

text \<open>The \<^verbatim>\<open>comparator\<close> closure of \<^verbatim>\<open>getOpTypeFromOperationName\<close>.\<close>

definition comparator :: "string \<Rightarrow> string \<Rightarrow> bool" where
  "comparator opName pfx =
     (startsWith (toLowerCase opName) pfx \<or> startsWith (toLowerCase opName) (''on'' @ pfx))"

text \<open>
  \<^verbatim>\<open>getOpTypeFromOperationName\<close>: \<^verbatim>\<open>opName\<close> defaults to the empty string; the
  three rows are visited by \<^verbatim>\<open>forEach\<close>, whose callback assigns \<^verbatim>\<open>result\<close> on a
  match. The \<^verbatim>\<open>return\<close> after the assignment ends that call of the callback only, so
  every row is visited.
\<close>

definition getOpTypeFromOperationName :: "OfflineConfig \<Rightarrow> string option \<Rightarrow> CacheOperationTypes" where
  "getOpTypeFromOperationName cfg opName' =
     (let opName = (case opName' of None \<Rightarrow> [] | Some n \<Rightarrow> n) in
      foldl (\<lambda>result row. if list_ex (comparator opName) (fst row) then snd row else result)
        AUTO
        [(prefixesForAdd cfg, ADD),
         (prefixesForRemove cfg, REMOVE),
         (prefixesForUpdate cfg, UPDATE)])"

text \<open>
  \<^verbatim>\<open>setConfig\<close> merges the overrides that are given into the configuration
  (\<^verbatim>\<open>Object.assign\<close>); a key that is not given keeps its value.
\<close>

record ConfigOverrides =
  newPrefixesForRemove :: "string list option"
  newPrefixesForUpdate :: "string list option"
  newPrefixesForAdd :: "string list option"
  newGetIdFieldFromObject :: "(jsval \<Rightarrow> jserror + string option) option"
  newIdField :: "string option"

definition setConfig :: "OfflineConfig \<Rightarrow> ConfigOverrides \<Rightarrow> OfflineConfig" where
  "setConfig cfg config =
     \<lparr> prefixesForRemove =
         (case newPrefixesForRemove config of None \<Rightarrow> prefixesForRemove cfg | Some l \<Rightarrow> l),
       prefixesForUpdate =
         (case newPrefixesForUpdate config of None \<Rightarrow> prefixesForUpdate cfg | Some l \<Rightarrow> l),
       prefixesForAdd =
         (case newPrefixesForAdd config of None \<Rightarrow> prefixesForAdd cfg | Some l \<Rightarrow> l),
       getIdFieldFromObject =
         (case newGetIdFieldFromObject config of
            None \<Rightarrow> getIdFieldFromObject cfg
          | Some g \<Rightarrow> Some g),
       idField = (case newIdField config of None \<Rightarrow> idField cfg | Some f \<Rightarrow> f) \<rparr>"

section \<open>Update strategies\<close>

text \<open>
  Modelled from the spec: \<^verbatim>\<open>pick\<close> of \<^verbatim>\<open>src/utils.ts\<close>, which is not among the
  sources. The spec has it project an object to a subset of keys, a key contributing its
  field when the object has it. The spec fixes nothing for an argument that is not an
  object; such an argument has no fields, and the projection is empty.
\<close>

definition pick :: "jsval \<Rightarrow> string list \<Rightarrow> (string \<times> jsval) list" where
  "pick obj keys =
     (case obj of
        JObj fs \<Rightarrow> List.map_filter (\<lambda>k. map_option (Pair k) (map_of fs k)) keys
      | _ \<Rightarrow> [])"

text \<open>
  \<^verbatim>\<open>Array.prototype.filter\<close> and \<^verbatim>\<open>Array.prototype.map\<close> with a callback that may
  throw: the elements are visited in order and the first exception ends the call.
\<close>

fun filter_err :: "('a \<Rightarrow> jserror + bool) \<Rightarrow> 'a list \<Rightarrow> jserror + 'a list" where
  "filter_err p [] = Inr []"
| "filter_err p (x # xs) =
     bind_err (p x) (\<lambda>keep. bind_err (filter_err p xs) (\<lambda>ys. Inr (if keep then x # ys else ys)))"

fun map_err :: "('a \<Rightarrow> jserror + 'b) \<Rightarrow> 'a list \<Rightarrow> jserror + 'b list" where
  "map_err f [] = Inr []"
| "map_err f (x # xs) =
     bind_err (f x) (\<lambda>y. bind_err (map_err f xs) (\<lambda>ys. Inr (y # ys)))"

text \<open>\<^verbatim>\<open>item[idField] === newItem[idField]\<close>; reading either side may throw.\<close>

definition same_id :: "string \<Rightarrow> jsval \<Rightarrow> jsval \<Rightarrow> jserror + bool" where
  "same_id idf newItem item =
     bind_err (get_prop item idf) (\<lambda>a. bind_err (get_prop newItem idf) (\<lambda>b. Inr (strict_eq a b)))"

definition different_id :: "string \<Rightarrow> jsval \<Rightarrow> jsval \<Rightarrow> jserror + bool" where
  "different_id idf newItem item = bind_err (same_id idf newItem item) (\<lambda>b. Inr (\<not> b))"

text \<open>
  \<^verbatim>\<open>getUpdater(opType, idField)\<close> applied to \<^verbatim>\<open>currentValue\<close> and \<^verbatim>\<open>newItem\<close>
  (\<open>Undefined\<close> when the argument is not given). The result is the returned value, or
  the exception raised while computing it.
\<close>

definition getUpdater :: "CacheOperationTypes \<Rightarrow> string \<Rightarrow> jsval \<Rightarrow> jsval \<Rightarrow> jserror + jsval" where
  "getUpdater opType idf currentValue newItem =
     (case opType of
        ADD \<Rightarrow>
          (case currentValue of
             JArr xs \<Rightarrow>
               if truthy newItem
               then bind_err (filter_err (different_id idf newItem) xs)
                      (\<lambda>ys. Inr (JArr (ys @ [newItem])))
               else Inr (JArr xs)
           | _ \<Rightarrow> Inr newItem)
      | UPDATE \<Rightarrow>
          (case currentValue of
             JArr xs \<Rightarrow>
               if truthy newItem
               then bind_err
                      (map_err (\<lambda>item. bind_err (same_id idf newItem item)
                                  (\<lambda>b. Inr (if b then newItem else item))) xs)
                      (\<lambda>ys. Inr (JArr ys))
               else Inr (JArr xs)
           | _ \<Rightarrow>
               bind_err (object_keys currentValue)
                 (\<lambda>keys. Inr (JObj (spread (own_props currentValue)
                                  (pick newItem (filter (\<lambda>key. key \<noteq> ''__typename'') keys))))))
      | REMOVE \<Rightarrow>
          (case currentValue of
             JArr xs \<Rightarrow>
               if truthy newItem
               then bind_err (filter_err (different_id idf newItem) xs) (\<lambda>ys. Inr (JArr ys))
               else Inr (JArr xs)
           | _ \<Rightarrow> Inr Null)
      | AUTO \<Rightarrow> Inr currentValue)"

section \<open>Path utilities\<close>

text \<open>
  Modelled from the spec: \<^verbatim>\<open>findArrayInObject\<close> of \<^verbatim>\<open>src/utils.ts\<close>, which is not
  among the sources. The spec has it traverse the object graph depth first, the keys of
  an object in enumeration order, and return the path of keys to the first array met:
  the empty path when the root is the array, nothing when no array is found.
\<close>

fun findArrayInObject :: "jsval \<Rightarrow> string list option"
  and findArrayInProps :: "(string \<times> jsval) list \<Rightarrow> string list option" where
  "findArrayInObject (JArr xs) = Some []"
| "findArrayInObject (JObj fs) = findArrayInProps fs"
| "findArrayInObject Undefined = None"
| "findArrayInObject Null = None"
| "findArrayInObject (JBool b) = None"
| "findArrayInObject (JNum n) = None"
| "findArrayInObject (JStr s) = None"
| "findArrayInProps [] = None"
| "findArrayInProps ((k, v) # ps) =
     (case findArrayInObject v of
        Some path \<Rightarrow> Some (k # path)
      | None \<Rightarrow> findArrayInProps ps)"

text \<open>
  Modelled from the spec: \<^verbatim>\<open>getValueByPath\<close> of \<^verbatim>\<open>src/utils.ts\<close>. It reads the value
  at a discovered path, and returns the object itself for the root path and for no path.
\<close>

fun get_path :: "jsval \<Rightarrow> string list \<Rightarrow> jserror + jsval" where
  "get_path obj [] = Inr obj"
| "get_path obj (k # ks) = bind_err (get_prop obj k) (\<lambda>v. get_path v ks)"

definition getValueByPath :: "jsval \<Rightarrow> string list option \<Rightarrow> jserror + jsval" where
  "getValueByPath obj path = (case path of None \<Rightarrow> Inr obj | Some p \<Rightarrow> get_path obj p)"

text \<open>
  \<^verbatim>\<open>container[k] = x\<close>, returning the container after the assignment. Discovered paths
  cross objects only; on any other container the assignment is reported as an error.
\<close>

definition assign_prop :: "jsval \<Rightarrow> string \<Rightarrow> jsval \<Rightarrow> jserror + jsval" where
  "assign_prop container k x =
     (case container of
        JObj fs \<Rightarrow> Inr (JObj (set_field k x fs))
      | _ \<Rightarrow> Inl TypeError)"

text \<open>
  Modelled from the spec: \<^verbatim>\<open>setValueByPath\<close> of \<^verbatim>\<open>src/utils.ts\<close>. It writes a value
  at a discovered path by mutating the container at the last path segment. The source
  mutates \<^verbatim>\<open>obj\<close> in place; the model returns \<^verbatim>\<open>obj\<close> as it is after the call. With
  no segment there is no container to write to.
\<close>

fun setValueByPath :: "jsval \<Rightarrow> string list \<Rightarrow> jsval \<Rightarrow> jserror + jsval" where
  "setValueByPath obj [] x = Inr obj"
| "setValueByPath obj [k] x = assign_prop obj k x"
| "setValueByPath obj (k # ks) x =
     bind_err (get_prop obj k)
       (\<lambda>child. bind_err (setValueByPath child ks x) (\<lambda>child'. assign_prop obj k child'))"

section \<open>The cache patch\<close>

text \<open>
  A query document, as far as \<^verbatim>\<open>getOperationFieldName\<close> reads it: the definitions, their
  selections, and the name and alias of a selected field.
\<close>

datatype FieldNode = FieldNode (field_name: string) (field_alias: "string option")

datatype OperationDefinitionNode = OperationDefinitionNode (selections: "FieldNode list")

datatype DocumentNode = DocumentNode (definitions: "OperationDefinitionNode list")

text \<open>\<^verbatim>\<open>resultKeyNameFromField\<close> of apollo-utilities: the alias when there is one, else the name.\<close>

definition resultKeyNameFromField :: "FieldNode \<Rightarrow> string" where
  "resultKeyNameFromField field =
     (case field_alias field of Some a \<Rightarrow> a | None \<Rightarrow> field_name field)"

text \<open>
  \<^verbatim>\<open>getOperationFieldName\<close>: the first selection of the first definition. Reading through
  a missing definition or selection throws.
\<close>

definition getOperationFieldName :: "DocumentNode \<Rightarrow> jserror + string" where
  "getOperationFieldName operation =
     (case definitions operation of
        [] \<Rightarrow> Inl TypeError
      | d # _ \<Rightarrow>
          (case selections d of
             [] \<Rightarrow> Inl TypeError
           | f # _ \<Rightarrow> Inr (resultKeyNameFromField f)))"

text \<open>\<^verbatim>\<open>QueryWithVariables | DocumentNode\<close>; absent variables are \<open>Undefined\<close>.\<close>

datatype UpdateQuery = QueryWithVariables DocumentNode jsval | Document DocumentNode

text \<open>\<^verbatim>\<open>updateQuery.query || updateQuery\<close> and \<^verbatim>\<open>updateQuery.variables || {}\<close>.\<close>

fun query_of :: "UpdateQuery \<Rightarrow> DocumentNode" where
  "query_of (QueryWithVariables q vars) = q"
| "query_of (Document q) = q"

fun variables_of :: "UpdateQuery \<Rightarrow> jsval" where
  "variables_of (QueryWithVariables q vars) = (if truthy vars then vars else JObj [])"
| "variables_of (Document q) = JObj []"

text \<open>
  \<^verbatim>\<open>OfflineOptions\<close>, the recipe fields. The identity field of the recipe is named
  \<open>recipeIdField\<close> here, \<open>idField\<close> being the field of the configuration.
\<close>

record OfflineOptions =
  updateQuery :: "UpdateQuery option"
  recipeIdField :: "string option"
  operationType :: "CacheOperationTypes option"
  mapResultToUpdate :: "(jsval \<Rightarrow> jserror + jsval) option"

text \<open>
  The cache handle. \<^verbatim>\<open>readQuery\<close> throws or returns the result object of the query, or
  nothing (its declared result is \<^verbatim>\<open>QueryType | null\<close>); \<^verbatim>\<open>writeQuery\<close> may throw.
\<close>

record Client =
  readQuery :: "DocumentNode \<Rightarrow> jsval \<Rightarrow> jserror + (string \<times> jsval) list option"
  writeQuery :: "DocumentNode \<Rightarrow> jsval \<Rightarrow> jsval \<Rightarrow> jserror option"

text \<open>
  What a call of \<^verbatim>\<open>updateCache\<close> does: the \<^verbatim>\<open>readQuery\<close> calls it makes, each with
  its query, variables and what the call gave; the \<^verbatim>\<open>writeQuery\<close> calls it makes, each
  with its query, variables and data; and the exception it raises, if any.
\<close>

record Outcome =
  reads :: "(DocumentNode \<times> jsval \<times> (jserror + (string \<times> jsval) list option)) list"
  writes :: "(DocumentNode \<times> jsval \<times> jsval) list"
  raised :: "jserror option"

definition returned :: Outcome where
  "returned = \<lparr> reads = [], writes = [], raised = None \<rparr>"

definition threw :: "jserror \<Rightarrow> Outcome" where
  "threw e = \<lparr> reads = [], writes = [], raised = Some e \<rparr>"

text \<open>A string operand of \<^verbatim>\<open>||\<close> that is absent or empty is falsy.\<close>

fun truthy_string :: "string option \<Rightarrow> bool" where
  "truthy_string None = False"
| "truthy_string (Some s) = (s \<noteq> [])"

text \<open>
  \<^verbatim>\<open>idField || offlineConfig.getIdFieldFromObject?.(mutatedItem) || offlineConfig.idField!\<close>
\<close>

definition idFieldName :: "OfflineConfig \<Rightarrow> string option \<Rightarrow> jsval \<Rightarrow> jserror + string" where
  "idFieldName cfg recipeId mutatedItem =
     (if truthy_string recipeId then Inr (the recipeId)
      else
        (case getIdFieldFromObject cfg of
           None \<Rightarrow> Inr (idField cfg)
         | Some g \<Rightarrow>
             bind_err (g mutatedItem)
               (\<lambda>r. Inr (if truthy_string r then the r else idField cfg))))"

text \<open>
  The recipe passed to \<^verbatim>\<open>produce\<close>, on the draft of the read result. The draft is a
  copy of the read result that the recipe mutates; the model returns the draft after
  the recipe. \<^verbatim>\<open>setValueByPath\<close> mutates the sub-value held under \<^verbatim>\<open>queryField\<close>, so
  the draft holds the mutated sub-value there.
\<close>

definition recipe ::
  "(jsval \<Rightarrow> jsval \<Rightarrow> jserror + jsval) \<Rightarrow> string \<Rightarrow> jsval \<Rightarrow> (string \<times> jsval) list
     \<Rightarrow> jserror + (string \<times> jsval) list" where
  "recipe updaterFn queryField mutatedItem draft =
     (let opResultCachedValue = prop_of (JObj draft) queryField;
          path = findArrayInObject opResultCachedValue
      in bind_err (getValueByPath opResultCachedValue path) (\<lambda>current.
         bind_err (updaterFn current mutatedItem) (\<lambda>update.
           if path = None \<or> path = Some []
           then Inr (set_field queryField update draft)
           else bind_err (setValueByPath opResultCachedValue (the path) update)
                  (\<lambda>patched. Inr (set_field queryField patched draft)))))"

text \<open>
  \<^verbatim>\<open>const [opFieldName] = Object.keys(data)\<close>, of a truthy \<^verbatim>\<open>data\<close>, on which
  \<^verbatim>\<open>Object.keys\<close> does not throw: the first key, or \<^verbatim>\<open>undefined\<close>.
\<close>

definition opFieldName :: "jsval \<Rightarrow> string option" where
  "opFieldName data = (case map fst (own_props data) of [] \<Rightarrow> None | k # _ \<Rightarrow> Some k)"

text \<open>
  \<^verbatim>\<open>data[opFieldName]\<close>; an \<^verbatim>\<open>undefined\<close> key reads the property named \<^verbatim>\<open>"undefined"\<close>.
\<close>

definition opFieldValue :: "jsval \<Rightarrow> jsval" where
  "opFieldValue data =
     prop_of data (case opFieldName data of None \<Rightarrow> ''undefined'' | Some k \<Rightarrow> k)"

text \<open>
  The intent: the \<^verbatim>\<open>operationType\<close> of the recipe, \<^verbatim>\<open>AUTO\<close> by default, and for
  \<^verbatim>\<open>AUTO\<close> the classification of the operation field name.
\<close>

definition resolved_opType :: "OfflineConfig \<Rightarrow> jsval \<Rightarrow> OfflineOptions \<Rightarrow> CacheOperationTypes" where
  "resolved_opType cfg data opts =
     (let operationType' = (case operationType opts of None \<Rightarrow> AUTO | Some t \<Rightarrow> t)
      in if operationType' = AUTO then getOpTypeFromOperationName cfg (opFieldName data)
         else operationType')"

text \<open>
  \<^verbatim>\<open>mapResultToUpdate ? mapResultToUpdate(data) : data[opFieldName]\<close>; the function of
  the caller may throw.
\<close>

definition mutatedItem :: "jsval \<Rightarrow> OfflineOptions \<Rightarrow> jserror + jsval" where
  "mutatedItem data opts =
     (case mapResultToUpdate opts of None \<Rightarrow> Inr (opFieldValue data) | Some f \<Rightarrow> f data)"

text \<open>\<^verbatim>\<open>updateCache\<close>.\<close>

definition updateCache :: "OfflineConfig \<Rightarrow> Client \<Rightarrow> jsval \<Rightarrow> OfflineOptions \<Rightarrow> Outcome" where
  "updateCache cfg client data opts =
     (if \<not> truthy data then returned
      else
        let opType = resolved_opType cfg data opts in
        if \<not> truthy (opFieldValue data) then returned
        else
          (case mutatedItem data opts of
             Inl e \<Rightarrow> threw e
           | Inr item \<Rightarrow>
               (case updateQuery opts of
                  None \<Rightarrow> threw TypeError
                | Some uq \<Rightarrow>
                    let query = query_of uq; queryVars = variables_of uq in
                    (case getOperationFieldName query of
                       Inl e \<Rightarrow> threw e
                     | Inr queryField \<Rightarrow>
                         let cachedQueryResult = readQuery client query queryVars;
                             read = [(query, queryVars, cachedQueryResult)]
                         in
                         (case cachedQueryResult of
                            Inl e \<Rightarrow> returned\<lparr> reads := read \<rparr>
                          | Inr None \<Rightarrow> returned\<lparr> reads := read \<rparr>
                          | Inr (Some draft) \<Rightarrow>
                              (case idFieldName cfg (recipeIdField opts) item of
                                 Inl e \<Rightarrow> (threw e)\<lparr> reads := read \<rparr>
                               | Inr idf \<Rightarrow>
                                   (case recipe (getUpdater opType idf) queryField item draft of
                                      Inl e \<Rightarrow> (threw e)\<lparr> reads := read \<rparr>
                                    | Inr updatedQueryData \<Rightarrow>
                                        \<lparr> reads = read,
                                          writes = [(query, queryVars, JObj updatedQueryData)],
                                          raised = writeQuery client query queryVars
                                                     (JObj updatedQueryData) \<rparr>)))))))"

section \<open>Options augmentation\<close>

text \<open>
  The value of a hook option: plain data, a function supplied by the caller, or one of
  the two closures that \<^verbatim>\<open>getMutationOptions\<close> and \<^verbatim>\<open>getSubscriptionOptions\<close> create,
  which hold the recipe fields they were created with.
\<close>

datatype OptionValue =
    Plain jsval
  | CallerFunction string
  | InjectedUpdate OfflineOptions
  | InjectedOnSubscriptionData OfflineOptions

fun truthy_option :: "OptionValue option \<Rightarrow> bool" where
  "truthy_option None = False"
| "truthy_option (Some (Plain v)) = truthy v"
| "truthy_option (Some f) = True"

text \<open>
  \<^verbatim>\<open>getMutationOptions\<close>: the argument is destructured into the recipe fields and the
  remaining \<^verbatim>\<open>options\<close>; the result spreads \<^verbatim>\<open>options\<close> over the injected
  \<^verbatim>\<open>update\<close>.
\<close>

definition getMutationOptions ::
  "OfflineOptions \<Rightarrow> (string \<times> OptionValue) list \<Rightarrow> (string \<times> OptionValue) list" where
  "getMutationOptions opts options =
     (if updateQuery opts = None \<or> truthy_option (map_of options ''update'') then options
      else spread [(''update'', InjectedUpdate opts)] options)"

definition getSubscriptionOptions ::
  "OfflineOptions \<Rightarrow> (string \<times> OptionValue) list \<Rightarrow> (string \<times> OptionValue) list" where
  "getSubscriptionOptions opts options =
     (if updateQuery opts = None \<or> truthy_option (map_of options ''onSubscriptionData'') then options
      else spread [(''onSubscriptionData'', InjectedOnSubscriptionData opts)] options)"

text \<open>
  Calling an injected closure with the cache handle and the result data runs
  \<^verbatim>\<open>updateCache\<close> with the recipe fields the closure holds. A function of the caller is
  outside this program.
\<close>

fun call_injected :: "OfflineConfig \<Rightarrow> OptionValue \<Rightarrow> Client \<Rightarrow> jsval \<Rightarrow> Outcome option" where
  "call_injected cfg (InjectedUpdate opts) client data = Some (updateCache cfg client data opts)"
| "call_injected cfg (InjectedOnSubscriptionData opts) client data =
     Some (updateCache cfg client data opts)"
| "call_injected cfg v client data = None"

section \<open>Inputs of the evaluated cases\<close>

text \<open>
  The configuration after \<^verbatim>\<open>setConfig({prefixesForUpdate: [...prefixesForUpdate, 'set']})\<close>:
  \<open>set\<close> is then a prefix of the update list and of the add list.
\<close>

definition config_with_set :: OfflineConfig where
  "config_with_set =
     setConfig offlineConfig
       \<lparr> newPrefixesForRemove = None,
         newPrefixesForUpdate = Some (prefixesForUpdate offlineConfig @ [''set'']),
         newPrefixesForAdd = None,
         newGetIdFieldFromObject = None,
         newIdField = None \<rparr>"

text \<open>The query \<^verbatim>\<open>{ posts { ... } }\<close> and the recipe \<^verbatim>\<open>{updateQuery: postsQuery}\<close>.\<close>

definition postsQuery :: DocumentNode where
  "postsQuery = DocumentNode [OperationDefinitionNode [FieldNode ''posts'' None]]"

definition posts_recipe :: OfflineOptions where
  "posts_recipe =
     \<lparr> updateQuery = Some (Document postsQuery), recipeIdField = None,
       operationType = None, mapResultToUpdate = None \<rparr>"

text \<open>The posts of \<^verbatim>\<open>test/offline.test.ts\<close>, a patch of the third, and a primed cache.\<close>

definition post1 :: jsval where
  "post1 = JObj [(''__typename'', JStr ''post''), (''id'', JNum 1), (''user_id'', JNum 1),
                 (''title'', JStr ''A day on the beach''), (''date'', JStr ''2018-01-01'')]"

definition post2 :: jsval where
  "post2 = JObj [(''__typename'', JStr ''post''), (''id'', JNum 24), (''user_id'', JNum 10),
                 (''title'', JStr ''Coding for joy''), (''date'', JStr ''2018-12-24'')]"

definition post3 :: jsval where
  "post3 = JObj [(''__typename'', JStr ''post''), (''id'', JNum 25), (''user_id'', JNum 9),
                 (''title'', JStr ''On the road''), (''date'', JStr ''2018-12-25'')]"

definition newPost :: jsval where
  "newPost = JObj [(''__typename'', JStr ''post''), (''id'', JNum 26), (''user_id'', JNum 11),
                   (''title'', JStr ''New post''), (''date'', JStr ''2018-12-31'')]"

definition updatedPost :: jsval where
  "updatedPost = JObj [(''id'', JNum 25), (''title'', JStr ''Updated post''),
                       (''__typename'', JStr ''post''), (''draft'', JBool True)]"

definition featuredPostsQuery :: DocumentNode where
  "featuredPostsQuery = DocumentNode [OperationDefinitionNode [FieldNode ''featuredPosts'' None]]"

text \<open>
  A cache primed with \<^verbatim>\<open>{posts: [post1, post2, post3]}\<close> for \<^verbatim>\<open>postsQuery\<close>: reading
  any other query throws. The second cache returns nothing for every query.
\<close>

definition primed_client :: Client where
  "primed_client =
     \<lparr> readQuery = (\<lambda>query vars.
         if query = postsQuery then Inr (Some [(''posts'', JArr [post1, post2, post3])])
         else Inl (Thrown ''cache miss'')),
       writeQuery = (\<lambda>query vars data. None) \<rparr>"

definition empty_client :: Client where
  "empty_client =
     \<lparr> readQuery = (\<lambda>query vars. Inr None), writeQuery = (\<lambda>query vars data. None) \<rparr>"

text \<open>
  The recipe \<^verbatim>\<open>{updateQuery: featuredPostsQuery}\<close>, of a query that was never written to
  the cache, and the payloads \<^verbatim>\<open>{createPost: newPost}\<close> and \<^verbatim>\<open>{likePost: newPost}\<close>;
  \<open>likepost\<close> starts with no default prefix.
\<close>

definition featured_recipe :: OfflineOptions where
  "featured_recipe = posts_recipe\<lparr> updateQuery := Some (Document featuredPostsQuery) \<rparr>"

definition createPost_payload :: jsval where
  "createPost_payload = JObj [(''createPost'', newPost)]"

definition likePost_payload :: jsval where
  "likePost_payload = JObj [(''likePost'', newPost)]"

text \<open>The cache results \<^verbatim>\<open>{posts: {featured: [post1], total: 10}}\<close> and \<^verbatim>\<open>{post: post1}\<close>.\<close>

definition featured_result :: jsval where
  "featured_result = JObj [(''posts'', JObj [(''featured'', JArr [post1]), (''total'', JNum 10)])]"

definition single_result :: jsval where
  "single_result = JObj [(''post'', post1)]"

text \<open>
  The configuration after \<^verbatim>\<open>setConfig({getIdFieldFromObject: item => item.meta.idKey})\<close>,
  on items without a \<^verbatim>\<open>meta\<close> field: the callback throws on reading \<^verbatim>\<open>idKey\<close> of
  \<^verbatim>\<open>undefined\<close>.
\<close>

definition config_with_throwing_callback :: OfflineConfig where
  "config_with_throwing_callback =
     setConfig offlineConfig
       \<lparr> newPrefixesForRemove = None,
         newPrefixesForUpdate = None,
         newPrefixesForAdd = None,
         newGetIdFieldFromObject =
           Some (\<lambda>item. bind_err (get_prop (prop_of item ''meta'') ''idKey'')
                          (\<lambda>key. Inr (case key of JStr k \<Rightarrow> Some k | _ \<Rightarrow> None))),
         newIdField = None \<rparr>"

section \<open>Notions used to state the properties\<close>

text \<open>
  The prefix lists of a category, and the spec's test for it: the lower-cased name starts
  with a configured prefix of the category, or with \<open>on\<close> followed by such a prefix.
  It is stated with the prefix order of the library, independently of
  \<^const>\<open>comparator\<close>.
\<close>

fun prefixes_of :: "OfflineConfig \<Rightarrow> CacheOperationTypes \<Rightarrow> string list" where
  "prefixes_of cfg ADD = prefixesForAdd cfg"
| "prefixes_of cfg REMOVE = prefixesForRemove cfg"
| "prefixes_of cfg UPDATE = prefixesForUpdate cfg"
| "prefixes_of cfg AUTO = []"

definition category_matches :: "OfflineConfig \<Rightarrow> CacheOperationTypes \<Rightarrow> string \<Rightarrow> bool" where
  "category_matches cfg c n =
     list_ex (\<lambda>p. prefix p (toLowerCase n) \<or> prefix (''on'' @ p) (toLowerCase n)) (prefixes_of cfg c)"

text \<open>An item that can be read: neither \<^verbatim>\<open>null\<close> nor \<^verbatim>\<open>undefined\<close>.\<close>

definition readable :: "jsval list \<Rightarrow> bool" where
  "readable xs = list_all (\<lambda>x. \<not> nullish x) xs"

text \<open>The elements of a collection that carry the identity value of \<open>newItem\<close>.\<close>

definition carries_id :: "string \<Rightarrow> jsval \<Rightarrow> jsval \<Rightarrow> bool" where
  "carries_id idf newItem item = strict_eq (prop_of item idf) (prop_of newItem idf)"

text \<open>At most one element per identity value: no two elements have strictly equal identity values.\<close>

fun unique_ids :: "string \<Rightarrow> jsval list \<Rightarrow> bool" where
  "unique_ids idf [] = True"
| "unique_ids idf (x # xs) =
     (list_all (\<lambda>y. \<not> strict_eq (prop_of x idf) (prop_of y idf)) xs \<and> unique_ids idf xs)"

text \<open>A path that crosses objects only and names a field of each object it crosses.\<close>

fun object_path :: "jsval \<Rightarrow> string list \<Rightarrow> bool" where
  "object_path v [] = True"
| "object_path v (k # ks) =
     (case v of
        JObj fs \<Rightarrow> (case map_of fs k of Some child \<Rightarrow> object_path child ks | None \<Rightarrow> False)
      | _ \<Rightarrow> False)"

text \<open>
  A value as JavaScript can hold it: the keys of every object are distinct.
\<close>

fun distinct_keys :: "jsval \<Rightarrow> bool"
  and distinct_keys_props :: "(string \<times> jsval) list \<Rightarrow> bool"
  and distinct_keys_list :: "jsval list \<Rightarrow> bool" where
  "distinct_keys (JObj fs) = (distinct (map fst fs) \<and> distinct_keys_props fs)"
| "distinct_keys (JArr xs) = distinct_keys_list xs"
| "distinct_keys Undefined = True"
| "distinct_keys Null = True"
| "distinct_keys (JBool b) = True"
| "distinct_keys (JNum n) = True"
| "distinct_keys (JStr s) = True"
| "distinct_keys_props [] = True"
| "distinct_keys_props ((k, v) # ps) = (distinct_keys v \<and> distinct_keys_props ps)"
| "distinct_keys_list [] = True"
| "distinct_keys_list (x # xs) = (distinct_keys x \<and> distinct_keys_list xs)"

text \<open>
  The paths to every array that is reached through objects only, in the order of a
  depth-first, pre-order traversal that takes the keys of an object in enumeration
  order. The traversal does not look inside an array.
\<close>

fun array_paths :: "jsval \<Rightarrow> string list list"
  and array_paths_props :: "(string \<times> jsval) list \<Rightarrow> string list list" where
  "array_paths (JArr xs) = [[]]"
| "array_paths (JObj fs) = array_paths_props fs"
| "array_paths Undefined = []"
| "array_paths Null = []"
| "array_paths (JBool b) = []"
| "array_paths (JNum n) = []"
| "array_paths (JStr s) = []"
| "array_paths_props [] = []"
| "array_paths_props ((k, v) # ps) = map ((#) k) (array_paths v) @ array_paths_props ps"

text \<open>
  Deep equality as the repository's tests take it (\<^verbatim>\<open>toEqual\<close>): a property whose value
  is \<^verbatim>\<open>undefined\<close> counts as absent. \<open>defined_props\<close> removes such properties at every
  depth.
\<close>

fun defined_props :: "jsval \<Rightarrow> jsval"
  and defined_props_fields :: "(string \<times> jsval) list \<Rightarrow> (string \<times> jsval) list"
  and defined_props_list :: "jsval list \<Rightarrow> jsval list" where
  "defined_props (JObj fs) = JObj (defined_props_fields fs)"
| "defined_props (JArr xs) = JArr (defined_props_list xs)"
| "defined_props Undefined = Undefined"
| "defined_props Null = Null"
| "defined_props (JBool b) = JBool b"
| "defined_props (JNum n) = JNum n"
| "defined_props (JStr s) = JStr s"
| "defined_props_fields [] = []"
| "defined_props_fields ((k, v) # ps) =
     (if v = Undefined then defined_props_fields ps
      else (k, defined_props v) # defined_props_fields ps)"
| "defined_props_list [] = []"
| "defined_props_list (x # xs) = defined_props x # defined_props_list xs"

definition deep_equal :: "jsval \<Rightarrow> jsval \<Rightarrow> bool" where
  "deep_equal a b = (defined_props a = defined_props b)"

section \<open>Basic facts\<close>

lemma bind_err_Inl [simp]: "bind_err (Inl e) f = Inl e"
  by (simp add: bind_err_def)

lemma bind_err_Inr [simp]: "bind_err (Inr x) f = f x"
  by (simp add: bind_err_def)

lemma truthy_not_nullish: "truthy v \<Longrightarrow> \<not> nullish v"
  by (cases v) simp_all

lemma prop_of_JObj:
  "prop_of (JObj fs) k = (case map_of fs k of Some x \<Rightarrow> x | None \<Rightarrow> Undefined)"
  by (simp add: prop_of_def split: option.splits)

lemma map_fst_set_field:
  "k \<in> fst ` set fs \<Longrightarrow> map fst (set_field k x fs) = map fst fs"
  by (induction fs) auto

lemma map_of_set_field: "map_of (set_field k x fs) = (map_of fs)(k \<mapsto> x)"
  by (induction fs) (auto simp: fun_eq_iff)

lemma set_field_same: "map_of fs k = Some v \<Longrightarrow> set_field k v fs = fs"
  by (induction fs) (auto split: if_splits)

lemma set_field_new: "k \<notin> fst ` set fs \<Longrightarrow> set_field k x fs = fs @ [(k, x)]"
  by (induction fs) auto

lemma spread_snoc: "spread a (b @ [p]) = set_field (fst p) (snd p) (spread a b)"
  by (simp add: spread_def)

lemma map_fst_spread:
  "fst ` set b \<subseteq> fst ` set a \<Longrightarrow> map fst (spread a b) = map fst a"
proof (induction b rule: rev_induct)
  case Nil
  then show ?case by (simp add: spread_def)
next
  case (snoc p b)
  then have ih: "map fst (spread a b) = map fst a" and p: "fst p \<in> fst ` set a"
    by simp_all
  have "fst ` set (spread a b) = set (map fst (spread a b))"
    by simp
  also have "\<dots> = fst ` set a"
    by (simp add: ih)
  finally have "fst p \<in> fst ` set (spread a b)"
    using p by simp
  then show ?case
    by (simp add: spread_snoc map_fst_set_field ih)
qed

lemma map_of_spread:
  "\<forall>p \<in> set b. g (fst p) = Some (snd p) \<Longrightarrow>
     map_of (spread a b) k = (if k \<in> fst ` set b then g k else map_of a k)"
proof (induction b rule: rev_induct)
  case Nil
  then show ?case by (simp add: spread_def)
next
  case (snoc p b)
  then have ih: "map_of (spread a b) k = (if k \<in> fst ` set b then g k else map_of a k)"
    and p: "g (fst p) = Some (snd p)"
    by simp_all
  show ?case
  proof (cases "k = fst p")
    case True
    then show ?thesis using p by (simp add: spread_snoc map_of_set_field)
  next
    case False
    then show ?thesis using ih by (simp add: spread_snoc map_of_set_field)
  qed
qed

lemma spread_fresh:
  "distinct (map fst b) \<Longrightarrow> fst ` set a \<inter> fst ` set b = {} \<Longrightarrow> spread a b = a @ b"
proof (induction b rule: rev_induct)
  case Nil
  then show ?case by (simp add: spread_def)
next
  case (snoc p b)
  then have ih: "spread a b = a @ b" by auto
  from snoc.prems have "fst p \<notin> fst ` set (a @ b)" by auto
  then have "set_field (fst p) (snd p) (a @ b) = (a @ b) @ [(fst p, snd p)]"
    by (rule set_field_new)
  then show ?case by (simp add: spread_snoc ih)
qed

section \<open>Intent classification\<close>

lemma startsWith_prefix: "startsWith s p = prefix p s"
  unfolding startsWith_def
  by (metis append_eq_conv_conj prefix_def append_take_drop_id)

lemma comparator_iff:
  "comparator n p = (prefix p (toLowerCase n) \<or> prefix (''on'' @ p) (toLowerCase n))"
  by (simp add: comparator_def startsWith_prefix)

lemma list_ex_comparator:
  "list_ex (comparator n) (prefixes_of cfg c) = category_matches cfg c n"
  unfolding category_matches_def list_ex_iff by (simp add: comparator_iff)

text \<open>
  Every row of the table is visited and a matching row overwrites \<^verbatim>\<open>result\<close>, so the
  category of the last matching row is returned.
\<close>

lemma getOpType_last_match:
  "getOpTypeFromOperationName cfg (Some n) =
     (if category_matches cfg UPDATE n then UPDATE
      else if category_matches cfg REMOVE n then REMOVE
      else if category_matches cfg ADD n then ADD
      else AUTO)"
  using list_ex_comparator [of n cfg UPDATE] list_ex_comparator [of n cfg REMOVE]
    list_ex_comparator [of n cfg ADD]
  by (simp add: getOpTypeFromOperationName_def)

lemma default_examples:
  "getOpTypeFromOperationName offlineConfig (Some ''createPost'') = ADD"
  "getOpTypeFromOperationName offlineConfig (Some ''newPost'') = ADD"
  "getOpTypeFromOperationName offlineConfig (Some ''insertPost'') = ADD"
  "getOpTypeFromOperationName offlineConfig (Some ''updatePost'') = UPDATE"
  "getOpTypeFromOperationName offlineConfig (Some ''editPost'') = UPDATE"
  "getOpTypeFromOperationName offlineConfig (Some ''removePost'') = REMOVE"
  "getOpTypeFromOperationName offlineConfig (Some ''deletePost'') = REMOVE"
  by code_simp+

text \<open>
  C1. The spec has the category tested first, in the order ADD, REMOVE, UPDATE, win
  when the lower-cased name matches prefixes of more than one category. The code
  returns the category tested last: after
  \<^verbatim>\<open>setConfig({prefixesForUpdate: [...prefixesForUpdate, 'set']})\<close> the name
  \<^verbatim>\<open>setTitle\<close> matches a prefix of the add list and a prefix of the update list, and
  is classified as UPDATE, not as ADD.
\<close>

theorem last_match_wins:
  "category_matches config_with_set ADD ''setTitle''
   \<and> category_matches config_with_set UPDATE ''setTitle''
   \<and> getOpTypeFromOperationName config_with_set (Some ''setTitle'') = UPDATE"
  by code_simp

text \<open>
  C7. For every operation name and every configuration: a category that is assigned is
  one whose prefix list has a prefix with which the lower-cased name starts, as it is or
  after \<open>on\<close>; the result is AUTO exactly when no prefix of any category matches; a name
  that matches the prefixes of one category only is assigned that category; the updater
  resolved for AUTO returns the current value unchanged. With the default lists,
  \<open>createPost\<close>, \<open>newPost\<close> and \<open>insertPost\<close> are ADD, \<open>updatePost\<close> and \<open>editPost\<close> are
  UPDATE, \<open>removePost\<close> and \<open>deletePost\<close> are REMOVE.
\<close>

theorem classification:
  "(getOpTypeFromOperationName cfg (Some n) \<noteq> AUTO \<longrightarrow>
      category_matches cfg (getOpTypeFromOperationName cfg (Some n)) n)
   \<and> ((getOpTypeFromOperationName cfg (Some n) = AUTO) =
        (\<not> category_matches cfg ADD n \<and> \<not> category_matches cfg REMOVE n
         \<and> \<not> category_matches cfg UPDATE n))
   \<and> (category_matches cfg c n \<and> (\<forall>c'. c' \<noteq> c \<longrightarrow> \<not> category_matches cfg c' n) \<longrightarrow>
        getOpTypeFromOperationName cfg (Some n) = c)
   \<and> getUpdater AUTO idf cur newItem = Inr cur
   \<and> getOpTypeFromOperationName offlineConfig (Some ''createPost'') = ADD
   \<and> getOpTypeFromOperationName offlineConfig (Some ''newPost'') = ADD
   \<and> getOpTypeFromOperationName offlineConfig (Some ''insertPost'') = ADD
   \<and> getOpTypeFromOperationName offlineConfig (Some ''updatePost'') = UPDATE
   \<and> getOpTypeFromOperationName offlineConfig (Some ''editPost'') = UPDATE
   \<and> getOpTypeFromOperationName offlineConfig (Some ''removePost'') = REMOVE
   \<and> getOpTypeFromOperationName offlineConfig (Some ''deletePost'') = REMOVE"
proof -
  have sound: "getOpTypeFromOperationName cfg (Some n) \<noteq> AUTO \<longrightarrow>
      category_matches cfg (getOpTypeFromOperationName cfg (Some n)) n"
    by (simp add: getOpType_last_match)
  have none: "(getOpTypeFromOperationName cfg (Some n) = AUTO) =
        (\<not> category_matches cfg ADD n \<and> \<not> category_matches cfg REMOVE n
         \<and> \<not> category_matches cfg UPDATE n)"
    by (simp add: getOpType_last_match)
  have only: "category_matches cfg c n \<and> (\<forall>c'. c' \<noteq> c \<longrightarrow> \<not> category_matches cfg c' n) \<longrightarrow>
        getOpTypeFromOperationName cfg (Some n) = c"
  proof (intro impI, elim conjE)
    assume m: "category_matches cfg c n" and o: "\<forall>c'. c' \<noteq> c \<longrightarrow> \<not> category_matches cfg c' n"
    show "getOpTypeFromOperationName cfg (Some n) = c"
    proof (cases c)
      case AUTO
      with m show ?thesis by (simp add: category_matches_def)
    next
      case ADD
      with m o show ?thesis by (simp add: getOpType_last_match)
    next
      case REMOVE
      with m o show ?thesis by (simp add: getOpType_last_match)
    next
      case UPDATE
      with m show ?thesis by (simp add: getOpType_last_match)
    qed
  qed
  have ident: "getUpdater AUTO idf cur newItem = Inr cur"
    by (simp add: getUpdater_def)
  from sound none only ident default_examples show ?thesis
    by (intro conjI)
qed

theorem classification_witness:
  "getOpTypeFromOperationName offlineConfig (Some ''onCreatePost'') \<noteq> AUTO
   \<and> category_matches offlineConfig ADD ''onCreatePost''
   \<and> \<not> category_matches offlineConfig REMOVE ''onCreatePost''
   \<and> \<not> category_matches offlineConfig UPDATE ''onCreatePost''
   \<and> \<not> category_matches offlineConfig AUTO ''onCreatePost''
   \<and> getOpTypeFromOperationName offlineConfig (Some ''onCreatePost'') = ADD
   \<and> getUpdater AUTO ''id'' post1 newPost = Inr post1"
proof -
  have m: "category_matches offlineConfig ADD ''onCreatePost''"
    by code_simp
  have r: "\<not> category_matches offlineConfig REMOVE ''onCreatePost''"
    by code_simp
  have u: "\<not> category_matches offlineConfig UPDATE ''onCreatePost''"
    by code_simp
  have a: "\<not> category_matches offlineConfig AUTO ''onCreatePost''"
    by (simp add: category_matches_def)
  have o: "\<forall>c'. c' \<noteq> ADD \<longrightarrow> \<not> category_matches offlineConfig c' ''onCreatePost''"
  proof (intro allI impI)
    fix c' :: CacheOperationTypes
    assume "c' \<noteq> ADD"
    with r u a show "\<not> category_matches offlineConfig c' ''onCreatePost''"
      by (cases c') simp_all
  qed
  from m r u a o classification [of offlineConfig "''onCreatePost''" ADD "''id''" post1 newPost]
  show ?thesis by simp
qed

section \<open>Update strategies\<close>

lemma same_id_readable:
  "\<not> nullish item \<Longrightarrow> truthy newItem \<Longrightarrow>
     same_id idf newItem item = Inr (carries_id idf newItem item)"
  by (simp add: same_id_def get_prop_def carries_id_def truthy_not_nullish)

lemma different_id_readable:
  "\<not> nullish item \<Longrightarrow> truthy newItem \<Longrightarrow>
     different_id idf newItem item = Inr (\<not> carries_id idf newItem item)"
  by (simp add: different_id_def same_id_readable)

lemma filter_err_total:
  "\<forall>x \<in> set xs. p x = Inr (q x) \<Longrightarrow> filter_err p xs = Inr (filter q xs)"
  by (induction xs) simp_all

lemma map_err_total:
  "\<forall>x \<in> set xs. f x = Inr (g x) \<Longrightarrow> map_err f xs = Inr (map g xs)"
  by (induction xs) simp_all

lemma filter_different_id:
  "readable xs \<Longrightarrow> truthy newItem \<Longrightarrow>
     filter_err (different_id idf newItem) xs = Inr (filter (\<lambda>x. \<not> carries_id idf newItem x) xs)"
  by (rule filter_err_total) (simp add: readable_def list_all_iff different_id_readable)

lemma unique_ids_filter: "unique_ids idf xs \<Longrightarrow> unique_ids idf (filter P xs)"
  by (induction xs) (auto simp: list_all_iff)

lemma unique_ids_snoc:
  "unique_ids idf (xs @ [n]) =
     (unique_ids idf xs \<and> (\<forall>x \<in> set xs. \<not> strict_eq (prop_of x idf) (prop_of n idf)))"
  by (induction xs) (auto simp: list_all_iff)

lemma getUpdater_ADD_array:
  "readable xs \<Longrightarrow> truthy newItem \<Longrightarrow>
     getUpdater ADD idf (JArr xs) newItem =
       Inr (JArr (filter (\<lambda>x. \<not> carries_id idf newItem x) xs @ [newItem]))"
  by (simp add: getUpdater_def filter_different_id)

lemma getUpdater_REMOVE_array:
  "readable xs \<Longrightarrow> truthy newItem \<Longrightarrow>
     getUpdater REMOVE idf (JArr xs) newItem =
       Inr (JArr (filter (\<lambda>x. \<not> carries_id idf newItem x) xs))"
  by (simp add: getUpdater_def filter_different_id)

lemma getUpdater_UPDATE_array:
  "readable xs \<Longrightarrow> truthy newItem \<Longrightarrow>
     getUpdater UPDATE idf (JArr xs) newItem =
       Inr (JArr (map (\<lambda>x. if carries_id idf newItem x then newItem else x) xs))"
proof -
  assume r: "readable xs" and t: "truthy newItem"
  have "map_err (\<lambda>item. bind_err (same_id idf newItem item) (\<lambda>b. Inr (if b then newItem else item))) xs
        = Inr (map (\<lambda>x. if carries_id idf newItem x then newItem else x) xs)"
    by (rule map_err_total) (use r t in \<open>simp add: readable_def list_all_iff same_id_readable\<close>)
  then show ?thesis using t by (simp add: getUpdater_def)
qed

lemma getUpdater_absent:
  "\<not> truthy absent \<Longrightarrow> getUpdater ADD idf (JArr xs) absent = Inr (JArr xs)"
  "\<not> truthy absent \<Longrightarrow> getUpdater UPDATE idf (JArr xs) absent = Inr (JArr xs)"
  "\<not> truthy absent \<Longrightarrow> getUpdater REMOVE idf (JArr xs) absent = Inr (JArr xs)"
  by (simp_all add: getUpdater_def)

lemma getUpdater_not_array:
  "\<not> isArray cur \<Longrightarrow> getUpdater ADD idf cur newItem = Inr newItem"
  "\<not> isArray cur \<Longrightarrow> getUpdater REMOVE idf cur newItem = Inr Null"
  by (cases cur; simp add: getUpdater_def)+

lemma getUpdater_UPDATE_item:
  "getUpdater UPDATE idf (JObj fs) newItem =
     Inr (JObj (spread fs (pick newItem (filter (\<lambda>key. key \<noteq> ''__typename'') (map fst fs)))))"
  by (simp add: getUpdater_def object_keys_def)

lemma set_pick:
  "set (pick (JObj gs) keys) = {(k, v). k \<in> set keys \<and> map_of gs k = Some v}"
  by (force simp: pick_def map_filter_def image_iff)

text \<open>
  C3. The ADD updater. For an array \<open>xs\<close> of readable items and a present \<open>newItem\<close>,
  the result is \<open>xs\<close> without the elements whose identity value strictly equals that of
  \<open>newItem\<close>, followed by \<open>newItem\<close>: the new item is last, it is the only element that
  can carry its identity value, and a collection with at most one element per identity
  value stays so. With an absent \<open>newItem\<close> the result has the elements of \<open>xs\<close> in the
  same order. For a current value that is not an array the result is \<open>newItem\<close>.
\<close>

theorem add_updater:
  "(readable xs \<and> truthy newItem \<longrightarrow>
      getUpdater ADD idf (JArr xs) newItem =
        Inr (JArr (filter (\<lambda>x. \<not> carries_id idf newItem x) xs @ [newItem]))
      \<and> last (filter (\<lambda>x. \<not> carries_id idf newItem x) xs @ [newItem]) = newItem
      \<and> filter (carries_id idf newItem) (filter (\<lambda>x. \<not> carries_id idf newItem x) xs @ [newItem])
          = filter (carries_id idf newItem) [newItem]
      \<and> (unique_ids idf xs \<longrightarrow>
           unique_ids idf (filter (\<lambda>x. \<not> carries_id idf newItem x) xs @ [newItem])))
   \<and> (\<not> truthy absent \<longrightarrow> getUpdater ADD idf (JArr xs) absent = Inr (JArr xs))
   \<and> (\<not> isArray cur \<longrightarrow> getUpdater ADD idf cur newItem = Inr newItem)"
proof -
  have dedup: "filter (carries_id idf newItem) (filter (\<lambda>x. \<not> carries_id idf newItem x) xs) = []"
    by (induction xs) simp_all
  have uniq: "unique_ids idf xs \<longrightarrow>
      unique_ids idf (filter (\<lambda>x. \<not> carries_id idf newItem x) xs @ [newItem])"
    by (simp add: unique_ids_snoc unique_ids_filter carries_id_def)
  show ?thesis
    using dedup uniq
    by (simp add: getUpdater_ADD_array getUpdater_not_array getUpdater_absent)
qed

theorem add_updater_witness:
  "readable [post1, post2, post3] \<and> truthy updatedPost \<and> unique_ids ''id'' [post1, post2, post3]
   \<and> \<not> truthy Undefined \<and> \<not> isArray (JObj [])
   \<and> getUpdater ADD ''id'' (JArr [post1, post2, post3]) updatedPost =
       Inr (JArr [post1, post2, updatedPost])
   \<and> unique_ids ''id'' [post1, post2, updatedPost]
   \<and> getUpdater ADD ''id'' (JArr [post1, post2, post3]) Undefined =
       Inr (JArr [post1, post2, post3])
   \<and> getUpdater ADD ''id'' (JObj []) updatedPost = Inr updatedPost"
proof -
  have h: "readable [post1, post2, post3]" "truthy updatedPost"
    "unique_ids ''id'' [post1, post2, post3]" "\<not> truthy Undefined" "\<not> isArray (JObj [])"
    by (simp_all add: readable_def post1_def post2_def post3_def updatedPost_def prop_of_JObj)
  have f: "filter (\<lambda>x. \<not> carries_id ''id'' updatedPost x) [post1, post2, post3] = [post1, post2]"
    by (simp add: carries_id_def post1_def post2_def post3_def updatedPost_def prop_of_JObj)
  note t = add_updater [of "[post1, post2, post3]" updatedPost "''id''" Undefined "JObj []",
      unfolded f]
  from h t show ?thesis by simp
qed

text \<open>
  C2. The UPDATE updater. For an array \<open>xs\<close> of readable items and a present \<open>newItem\<close>,
  the result has the length and order of \<open>xs\<close>; each element whose identity value
  strictly equals that of \<open>newItem\<close> is \<open>newItem\<close> itself, every other element is
  unchanged. For a single item with fields \<open>fs\<close> and a new item with fields \<open>gs\<close>, the
  result has exactly the keys of \<open>fs\<close>, in their order; a key other than
  \<open>__typename\<close> that \<open>gs\<close> has takes the value of \<open>gs\<close>, every other key (\<open>__typename\<close>
  among them) keeps the value of \<open>fs\<close>; a field of \<open>gs\<close> that \<open>fs\<close> lacks is dropped.
\<close>

theorem update_updater:
  "(readable xs \<and> truthy newItem \<longrightarrow>
      getUpdater UPDATE idf (JArr xs) newItem =
        Inr (JArr (map (\<lambda>x. if carries_id idf newItem x then newItem else x) xs))
      \<and> length (map (\<lambda>x. if carries_id idf newItem x then newItem else x) xs) = length xs)
   \<and> (\<exists>rs. getUpdater UPDATE idf (JObj fs) (JObj gs) = Inr (JObj rs)
         \<and> map fst rs = map fst fs
         \<and> (\<forall>k. map_of rs k =
               (if k \<in> set (map fst fs) \<and> k \<noteq> ''__typename'' \<and> map_of gs k \<noteq> None
                then map_of gs k else map_of fs k)))"
proof -
  let ?keys = "filter (\<lambda>key. key \<noteq> ''__typename'') (map fst fs)"
  let ?rs = "spread fs (pick (JObj gs) ?keys)"
  have keys: "fst ` set (pick (JObj gs) ?keys) \<subseteq> fst ` set fs"
    unfolding set_pick by fastforce
  have fstpick: "(k \<in> fst ` set (pick (JObj gs) ?keys)) =
      (k \<in> set (map fst fs) \<and> k \<noteq> ''__typename'' \<and> map_of gs k \<noteq> None)" for k
    unfolding set_pick image_iff by fastforce
  have vals: "\<forall>p \<in> set (pick (JObj gs) ?keys). map_of gs (fst p) = Some (snd p)"
    unfolding set_pick by fastforce
  have look: "map_of ?rs k =
      (if k \<in> set (map fst fs) \<and> k \<noteq> ''__typename'' \<and> map_of gs k \<noteq> None
       then map_of gs k else map_of fs k)" for k
    unfolding map_of_spread [OF vals, of fs k] fstpick [of k] by (rule refl)
  have item: "\<exists>rs. getUpdater UPDATE idf (JObj fs) (JObj gs) = Inr (JObj rs)
         \<and> map fst rs = map fst fs
         \<and> (\<forall>k. map_of rs k =
               (if k \<in> set (map fst fs) \<and> k \<noteq> ''__typename'' \<and> map_of gs k \<noteq> None
                then map_of gs k else map_of fs k))"
  proof (intro exI [of _ ?rs] conjI allI)
    show "getUpdater UPDATE idf (JObj fs) (JObj gs) = Inr (JObj ?rs)"
      by (rule getUpdater_UPDATE_item)
    show "map fst ?rs = map fst fs"
      by (rule map_fst_spread [OF keys])
    show "map_of ?rs k =
      (if k \<in> set (map fst fs) \<and> k \<noteq> ''__typename'' \<and> map_of gs k \<noteq> None
       then map_of gs k else map_of fs k)" for k
      by (rule look)
  qed
  show ?thesis
    using item by (simp add: getUpdater_UPDATE_array)
qed

theorem update_updater_witness:
  "readable [post1, post2, post3] \<and> truthy updatedPost
   \<and> getUpdater UPDATE ''id'' (JArr [post1, post2, post3]) updatedPost =
       Inr (JArr [post1, post2, updatedPost])
   \<and> getUpdater UPDATE ''id'' post3 updatedPost =
       Inr (JObj [(''__typename'', JStr ''post''), (''id'', JNum 25), (''user_id'', JNum 9),
                  (''title'', JStr ''Updated post''), (''date'', JStr ''2018-12-25'')])"
proof -
  have h: "readable [post1, post2, post3]" "truthy updatedPost"
    by (simp_all add: readable_def post1_def post2_def post3_def updatedPost_def)
  have m: "map (\<lambda>x. if carries_id ''id'' updatedPost x then updatedPost else x) [post1, post2, post3]
           = [post1, post2, updatedPost]"
    by (simp add: carries_id_def post1_def post2_def post3_def updatedPost_def prop_of_JObj)
  have i: "getUpdater UPDATE ''id'' post3 updatedPost =
       Inr (JObj [(''__typename'', JStr ''post''), (''id'', JNum 25), (''user_id'', JNum 9),
                  (''title'', JStr ''Updated post''), (''date'', JStr ''2018-12-25'')])"
    by code_simp
  note t = update_updater [of "[post1, post2, post3]" updatedPost "''id''" "[]" "[]",
      unfolded m]
  from h i t show ?thesis by simp
qed

text \<open>
  C4. The REMOVE updater. For an array \<open>xs\<close> of readable items and a present \<open>newItem\<close>,
  the result is \<open>xs\<close> without exactly the elements whose identity value strictly equals
  that of \<open>newItem\<close>, the others in their order; strict equality does not coerce: the
  number 1 and the string \<open>1\<close>, \<^verbatim>\<open>null\<close> and \<^verbatim>\<open>undefined\<close>, 0 and \<^verbatim>\<open>false\<close>, the empty
  string and 0 are different identity values. With an absent \<open>newItem\<close> the result has
  the elements of \<open>xs\<close> in the same order. For a current value that is not an array the
  result is \<^verbatim>\<open>null\<close>, whatever \<open>newItem\<close> is.
\<close>

theorem remove_updater:
  "(readable xs \<and> truthy newItem \<longrightarrow>
      getUpdater REMOVE idf (JArr xs) newItem =
        Inr (JArr (filter (\<lambda>x. \<not> carries_id idf newItem x) xs)))
   \<and> (\<not> truthy absent \<longrightarrow> getUpdater REMOVE idf (JArr xs) absent = Inr (JArr xs))
   \<and> (\<not> isArray cur \<longrightarrow> getUpdater REMOVE idf cur anyItem = Inr Null)
   \<and> \<not> strict_eq (JNum 1) (JStr ''1'') \<and> \<not> strict_eq Null Undefined
   \<and> \<not> strict_eq (JNum 0) (JBool False) \<and> \<not> strict_eq (JStr []) (JNum 0)"
  by (simp add: getUpdater_REMOVE_array getUpdater_not_array getUpdater_absent)

theorem remove_updater_witness:
  "readable [post1, post2, post3] \<and> truthy (JObj [(''id'', JNum 1)])
   \<and> \<not> truthy Undefined \<and> \<not> isArray (JObj [])
   \<and> getUpdater REMOVE ''id'' (JArr [post1, post2, post3]) (JObj [(''id'', JNum 1)]) =
       Inr (JArr [post2, post3])
   \<and> getUpdater REMOVE ''id'' (JArr [post1, post2, post3]) (JObj [(''id'', JStr ''1'')]) =
       Inr (JArr [post1, post2, post3])
   \<and> getUpdater REMOVE ''id'' (JArr [post1, post2, post3]) Undefined =
       Inr (JArr [post1, post2, post3])
   \<and> getUpdater REMOVE ''id'' (JObj []) (JObj [(''id'', JNum 1)]) = Inr Null"
proof -
  have h: "readable [post1, post2, post3]" "truthy (JObj [(''id'', JNum 1)])"
    "truthy (JObj [(''id'', JStr ''1'')])" "\<not> truthy Undefined" "\<not> isArray (JObj [])"
    by (simp_all add: readable_def post1_def post2_def post3_def)
  have f: "filter (\<lambda>x. \<not> carries_id ''id'' (JObj [(''id'', JNum 1)]) x) [post1, post2, post3]
           = [post2, post3]"
    "filter (\<lambda>x. \<not> carries_id ''id'' (JObj [(''id'', JStr ''1'')]) x) [post1, post2, post3]
           = [post1, post2, post3]"
    by (simp_all add: carries_id_def post1_def post2_def post3_def prop_of_JObj)
  note t =
    remove_updater [of "[post1, post2, post3]" "JObj [(''id'', JNum 1)]" "''id''" Undefined
      "JObj []" "JObj [(''id'', JNum 1)]", unfolded f]
    remove_updater [of "[post1, post2, post3]" "JObj [(''id'', JStr ''1'')]" "''id''" Undefined
      "JObj []" "JObj [(''id'', JNum 1)]", unfolded f]
  from h t show ?thesis by simp
qed

section \<open>Array discovery\<close>

lemma findArray_head_paths:
  "findArrayInObject v = (case array_paths v of [] \<Rightarrow> None | p # _ \<Rightarrow> Some p)"
  "findArrayInProps fs = (case array_paths_props fs of [] \<Rightarrow> None | p # _ \<Rightarrow> Some p)"
  by (induction v and fs rule: findArrayInObject_findArrayInProps.induct)
     (auto split: list.splits option.splits)

lemma findArrayInProps_key:
  "findArrayInProps fs = Some p \<Longrightarrow> \<exists>k ks. p = k # ks \<and> k \<in> fst ` set fs"
proof (induction fs)
  case Nil
  then show ?case by simp
next
  case (Cons f fs)
  obtain k v where f: "f = (k, v)" by (cases f)
  show ?case
  proof (cases "findArrayInObject v")
    case None
    with Cons f show ?thesis by auto
  next
    case (Some path)
    with Cons.prems f show ?thesis by auto
  qed
qed

lemma object_path_other_key:
  "k' \<noteq> k \<Longrightarrow> object_path (JObj ((k, v) # ps)) (k' # ks) = object_path (JObj ps) (k' # ks)"
  by simp

lemma get_path_other_key:
  "k' \<noteq> k \<Longrightarrow> get_path (JObj ((k, v) # ps)) (k' # ks) = get_path (JObj ps) (k' # ks)"
  by (simp add: get_prop_def prop_of_JObj)

text \<open>The path that is found crosses objects only and leads to an array.\<close>

lemma found_path:
  "distinct_keys v \<Longrightarrow> findArrayInObject v = Some p \<Longrightarrow>
     object_path v p \<and> (\<exists>xs. get_path v p = Inr (JArr xs))"
  "distinct (map fst fs) \<Longrightarrow> distinct_keys_props fs \<Longrightarrow> findArrayInProps fs = Some p \<Longrightarrow>
     object_path (JObj fs) p \<and> (\<exists>xs. get_path (JObj fs) p = Inr (JArr xs))"
proof (induction v and fs arbitrary: p and p rule: findArrayInObject_findArrayInProps.induct)
  case (9 k v ps)
  show ?case
  proof (cases "findArrayInObject v")
    case None
    with "9.prems" have f: "findArrayInProps ps = Some p" by simp
    from findArrayInProps_key [OF f] obtain k' ks where p: "p = k' # ks" and k': "k' \<in> fst ` set ps"
      by blast
    from "9.prems" k' have ne: "k' \<noteq> k" by auto
    from "9.IH"(2) [OF None _ _ f] "9.prems"
    have "object_path (JObj ps) p \<and> (\<exists>xs. get_path (JObj ps) p = Inr (JArr xs))" by simp
    then show ?thesis
      unfolding p object_path_other_key [OF ne] get_path_other_key [OF ne] .
  next
    case (Some path)
    with "9.prems" have p: "p = k # path" by simp
    from "9.IH"(1) [OF _ Some] "9.prems"
    have "object_path v path \<and> (\<exists>xs. get_path v path = Inr (JArr xs))" by simp
    then show ?thesis by (simp add: p get_prop_def prop_of_JObj)
  qed
qed simp_all

text \<open>\<open>array_paths\<close> lists exactly the paths through objects that lead to an array.\<close>

lemma array_paths_iff:
  "distinct_keys v \<Longrightarrow>
     (p \<in> set (array_paths v)) = (object_path v p \<and> (\<exists>xs. get_path v p = Inr (JArr xs)))"
  "distinct (map fst fs) \<Longrightarrow> distinct_keys_props fs \<Longrightarrow>
     (p \<in> set (array_paths_props fs)) =
       (object_path (JObj fs) p \<and> (\<exists>xs. get_path (JObj fs) p = Inr (JArr xs)))"
proof (induction v and fs arbitrary: p and p rule: array_paths_array_paths_props.induct)
  case (1 xs)
  then show ?case by (cases p) auto
next
  case (2 fs)
  then show ?case by simp
next
  case (9 k v ps)
  show ?case
  proof (cases p)
    case Nil
    then show ?thesis using "9.IH"(2) [of "[]"] "9.prems" by auto
  next
    case (Cons k' ks)
    show ?thesis
    proof (cases "k' = k")
      case True
      with "9.prems" have "map_of ps k = None"
        by (simp add: map_of_eq_None_iff)
      then have "k # ks \<notin> set (array_paths_props ps)"
        using "9.IH"(2) [of "k # ks"] "9.prems" by simp
      then show ?thesis
        using "9.IH"(1) [of ks] "9.prems" True Cons
        by (auto simp: get_prop_def prop_of_JObj)
    next
      case False
      then show ?thesis
        using "9.IH"(2) [of p] "9.prems" Cons
        by (auto simp: get_prop_def prop_of_JObj)
    qed
  qed
qed (case_tac p; simp)+

text \<open>Writing back what was read at a path through objects leaves the value as it was.\<close>

lemma set_get_path:
  "object_path v p \<Longrightarrow> get_path v p = Inr a \<Longrightarrow> setValueByPath v p a = Inr v"
proof (induction v p a rule: setValueByPath.induct)
  case (1 obj x)
  then show ?case by simp
next
  case (2 obj k x)
  then show ?case
    by (auto simp: assign_prop_def get_prop_def prop_of_JObj set_field_same
        split: jsval.splits option.splits)
next
  case (3 obj k k' ks x)
  from "3.prems"(1) obtain fs child where obj: "obj = JObj fs" and c: "map_of fs k = Some child"
    and op: "object_path child (k' # ks)"
    by (auto split: jsval.splits option.splits)
  from "3.prems"(2) obj c have g: "get_path child (k' # ks) = Inr x"
    by (simp add: get_prop_def prop_of_JObj)
  have gp: "get_prop obj k = Inr child"
    using obj c by (simp add: get_prop_def prop_of_JObj)
  from "3.IH" [OF op g] have "setValueByPath child (k' # ks) x = Inr child" .
  then show ?case
    using gp obj c by (simp add: assign_prop_def set_field_same)
qed

text \<open>
  C8. \<^verbatim>\<open>findArrayInObject\<close>, modelled from the spec, returns the first path of the
  depth-first, pre-order enumeration \<open>array_paths\<close>, which lists exactly the paths
  through objects that lead to an array; it returns the empty path for a root that is
  an array, and a path it returns leads to an array. It returns nothing exactly when
  no path through objects leads to an array; the value is then not an array,
  \<^verbatim>\<open>getValueByPath\<close> returns it whole, and the updaters treat it as a single item. For
  \<^verbatim>\<open>{posts: {featured: [...], total: 10}}\<close> the path is \<open>posts\<close>, \<open>featured\<close>.
\<close>

theorem findArrayInObject_first_array:
  "findArrayInObject root = (case array_paths root of [] \<Rightarrow> None | p # _ \<Rightarrow> Some p)
   \<and> (distinct_keys root \<longrightarrow>
        (\<forall>p. (p \<in> set (array_paths root)) =
              (object_path root p \<and> (\<exists>xs. get_path root p = Inr (JArr xs)))))
   \<and> (isArray arr \<longrightarrow> findArrayInObject arr = Some [])
   \<and> (distinct_keys root \<and> findArrayInObject root = Some path \<longrightarrow>
        (\<exists>xs. getValueByPath root (Some path) = Inr (JArr xs)))
   \<and> (distinct_keys item \<and> findArrayInObject item = None \<longrightarrow>
        (\<forall>p. object_path item p \<longrightarrow> (\<forall>xs. get_path item p \<noteq> Inr (JArr xs)))
        \<and> \<not> isArray item
        \<and> getValueByPath item (findArrayInObject item) = Inr item
        \<and> getUpdater ADD idf item newItem = Inr newItem
        \<and> getUpdater REMOVE idf item newItem = Inr Null)
   \<and> findArrayInObject
        (JObj [(''posts'', JObj [(''featured'', JArr featured), (''total'', JNum 10)])]) =
        Some [''posts'', ''featured'']"
proof -
  have none: "distinct_keys item \<and> findArrayInObject item = None \<longrightarrow>
        (\<forall>p. object_path item p \<longrightarrow> (\<forall>xs. get_path item p \<noteq> Inr (JArr xs)))
        \<and> \<not> isArray item
        \<and> getValueByPath item (findArrayInObject item) = Inr item
        \<and> getUpdater ADD idf item newItem = Inr newItem
        \<and> getUpdater REMOVE idf item newItem = Inr Null"
  proof (intro impI, elim conjE)
    assume d: "distinct_keys item" and n: "findArrayInObject item = None"
    from n have e: "array_paths item = []"
      by (simp add: findArray_head_paths(1) split: list.splits)
    have "\<forall>p. object_path item p \<longrightarrow> (\<forall>xs. get_path item p \<noteq> Inr (JArr xs))"
      using array_paths_iff(1) [OF d] e by auto
    moreover have na: "\<not> isArray item"
      using n by (cases item) simp_all
    moreover have "getValueByPath item (findArrayInObject item) = Inr item"
      using n by (simp add: getValueByPath_def)
    moreover have "getUpdater ADD idf item newItem = Inr newItem"
      "getUpdater REMOVE idf item newItem = Inr Null"
      using na by (simp_all add: getUpdater_not_array)
    ultimately show "(\<forall>p. object_path item p \<longrightarrow> (\<forall>xs. get_path item p \<noteq> Inr (JArr xs)))
        \<and> \<not> isArray item
        \<and> getValueByPath item (findArrayInObject item) = Inr item
        \<and> getUpdater ADD idf item newItem = Inr newItem
        \<and> getUpdater REMOVE idf item newItem = Inr Null"
      by blast
  qed
  have arr: "isArray arr \<longrightarrow> findArrayInObject arr = Some []"
    by (cases arr) simp_all
  have found: "distinct_keys root \<and> findArrayInObject root = Some path \<longrightarrow>
        (\<exists>xs. getValueByPath root (Some path) = Inr (JArr xs))"
    using found_path(1) [of root path] by (simp add: getValueByPath_def)
  have all: "distinct_keys root \<longrightarrow>
        (\<forall>p. (p \<in> set (array_paths root)) =
              (object_path root p \<and> (\<exists>xs. get_path root p = Inr (JArr xs))))"
    using array_paths_iff(1) [of root] by blast
  have ex: "findArrayInObject
        (JObj [(''posts'', JObj [(''featured'', JArr featured), (''total'', JNum 10)])]) =
        Some [''posts'', ''featured'']"
    by simp
  from findArray_head_paths(1) [of root] all arr found none ex show ?thesis
    by (intro conjI)
qed

theorem findArrayInObject_first_array_witness:
  "distinct_keys featured_result
   \<and> findArrayInObject featured_result = Some [''posts'', ''featured'']
   \<and> array_paths featured_result = [[''posts'', ''featured'']]
   \<and> getValueByPath featured_result (Some [''posts'', ''featured'']) = Inr (JArr [post1])
   \<and> isArray (JArr [post1, post2]) \<and> findArrayInObject (JArr [post1, post2]) = Some []
   \<and> distinct_keys single_result \<and> findArrayInObject single_result = None
   \<and> \<not> isArray single_result
   \<and> getValueByPath single_result (findArrayInObject single_result) = Inr single_result
   \<and> getUpdater REMOVE ''id'' single_result post1 = Inr Null"
proof -
  have h: "distinct_keys featured_result"
    "findArrayInObject featured_result = Some [''posts'', ''featured'']"
    "array_paths featured_result = [[''posts'', ''featured'']]"
    "getValueByPath featured_result (Some [''posts'', ''featured'']) = Inr (JArr [post1])"
    "isArray (JArr [post1, post2])"
    "distinct_keys single_result" "findArrayInObject single_result = None"
    "getUpdater REMOVE ''id'' single_result post1 = Inr Null"
    by code_simp+
  from h
    findArrayInObject_first_array [of featured_result "JArr [post1, post2]"
      "[''posts'', ''featured'']" single_result "''id''" post1 "[post1]"]
  show ?thesis by simp
qed

section \<open>The cache patch\<close>

text \<open>A call that reads the cache has passed every step before the read.\<close>

lemma updateCache_reads_cases:
  "reads (updateCache cfg client data opts) = [(q, vars, r)] \<Longrightarrow>
     truthy data \<and> truthy (opFieldValue data)
     \<and> (\<exists>item uq qf. mutatedItem data opts = Inr item \<and> updateQuery opts = Some uq
          \<and> q = query_of uq \<and> vars = variables_of uq
          \<and> getOperationFieldName q = Inr qf \<and> r = readQuery client q vars)"
  by (auto simp: updateCache_def Let_def returned_def threw_def
      split: if_splits sum.splits option.splits)

lemma updateCache_after_read:
  "truthy data \<Longrightarrow> truthy (opFieldValue data) \<Longrightarrow> mutatedItem data opts = Inr item \<Longrightarrow>
   updateQuery opts = Some uq \<Longrightarrow> getOperationFieldName (query_of uq) = Inr qf \<Longrightarrow>
   updateCache cfg client data opts =
     (let query = query_of uq; queryVars = variables_of uq;
          cachedQueryResult = readQuery client query queryVars;
          read = [(query, queryVars, cachedQueryResult)]
      in case cachedQueryResult of
           Inl e \<Rightarrow> returned\<lparr> reads := read \<rparr>
         | Inr None \<Rightarrow> returned\<lparr> reads := read \<rparr>
         | Inr (Some draft) \<Rightarrow>
             (case idFieldName cfg (recipeIdField opts) item of
                Inl e \<Rightarrow> (threw e)\<lparr> reads := read \<rparr>
              | Inr idf \<Rightarrow>
                  (case recipe (getUpdater (resolved_opType cfg data opts) idf) qf item draft of
                     Inl e \<Rightarrow> (threw e)\<lparr> reads := read \<rparr>
                   | Inr updatedQueryData \<Rightarrow>
                       \<lparr> reads = read,
                         writes = [(query, queryVars, JObj updatedQueryData)],
                         raised = writeQuery client query queryVars (JObj updatedQueryData) \<rparr>)))"
  by (simp add: updateCache_def Let_def)

text \<open>
  C5. \<^verbatim>\<open>updateCache\<close> returns without a \<^verbatim>\<open>writeQuery\<close> call and without raising when
  the payload is absent (falsy), when the value of its operation field is falsy, and in
  every call in which \<^verbatim>\<open>readQuery\<close> throws or returns nothing. No \<^verbatim>\<open>writeQuery\<close> call is
  made, so the cache keeps its state.
\<close>

theorem updateCache_skips:
  "(\<not> truthy data \<longrightarrow> updateCache cfg client data opts = returned)
   \<and> (\<not> truthy (opFieldValue data') \<longrightarrow> updateCache cfg client data' opts = returned)
   \<and> (reads (updateCache cfg client1 data1 opts1) = [(q1, vars1, Inl e)] \<longrightarrow>
        writes (updateCache cfg client1 data1 opts1) = []
        \<and> raised (updateCache cfg client1 data1 opts1) = None)
   \<and> (reads (updateCache cfg client2 data2 opts2) = [(q2, vars2, Inr None)] \<longrightarrow>
        writes (updateCache cfg client2 data2 opts2) = []
        \<and> raised (updateCache cfg client2 data2 opts2) = None)
   \<and> reads returned = [] \<and> writes returned = [] \<and> raised returned = None"
proof -
  have a: "\<not> truthy data \<longrightarrow> updateCache cfg client data opts = returned"
    by (simp add: updateCache_def)
  have b: "\<not> truthy (opFieldValue data') \<longrightarrow> updateCache cfg client data' opts = returned"
    by (simp add: updateCache_def Let_def)
  have c: "reads (updateCache cfg cl d os) = [(q, vars, r)] \<Longrightarrow> r = Inl e \<or> r = Inr None \<Longrightarrow>
        writes (updateCache cfg cl d os) = [] \<and> raised (updateCache cfg cl d os) = None"
    for cl d os q vars r
  proof -
    assume rd: "reads (updateCache cfg cl d os) = [(q, vars, r)]" and r: "r = Inl e \<or> r = Inr None"
    from updateCache_reads_cases [OF rd] obtain item uq qf where
      h: "truthy d" "truthy (opFieldValue d)" "mutatedItem d os = Inr item"
         "updateQuery os = Some uq" "q = query_of uq" "vars = variables_of uq"
         "getOperationFieldName q = Inr qf" "r = readQuery cl q vars"
      by blast
    from h have g: "getOperationFieldName (query_of uq) = Inr qf" by simp
    show ?thesis
      using r h(5,6,8)
      unfolding updateCache_after_read [OF h(1) h(2) h(3) h(4) g, of cfg cl]
      by (auto simp: Let_def returned_def)
  qed
  show ?thesis
    using a b c [of client1 data1 opts1 q1 vars1 "Inl e"] c [of client2 data2 opts2 q2 vars2 "Inr None"]
    by (simp add: returned_def)
qed

theorem updateCache_skips_witness:
  "\<not> truthy Null \<and> updateCache offlineConfig primed_client Null posts_recipe = returned
   \<and> \<not> truthy (opFieldValue (JObj [(''createPost'', Null)]))
   \<and> updateCache offlineConfig primed_client (JObj [(''createPost'', Null)]) posts_recipe = returned
   \<and> reads (updateCache offlineConfig primed_client createPost_payload featured_recipe) =
       [(featuredPostsQuery, JObj [], Inl (Thrown ''cache miss''))]
   \<and> writes (updateCache offlineConfig primed_client createPost_payload featured_recipe) = []
   \<and> raised (updateCache offlineConfig primed_client createPost_payload featured_recipe) = None
   \<and> reads (updateCache offlineConfig empty_client createPost_payload posts_recipe) =
       [(postsQuery, JObj [], Inr None)]
   \<and> writes (updateCache offlineConfig empty_client createPost_payload posts_recipe) = []
   \<and> raised (updateCache offlineConfig empty_client createPost_payload posts_recipe) = None"
proof -
  have h: "\<not> truthy Null" "\<not> truthy (opFieldValue (JObj [(''createPost'', Null)]))"
    "reads (updateCache offlineConfig primed_client createPost_payload featured_recipe) =
       [(featuredPostsQuery, JObj [], Inl (Thrown ''cache miss''))]"
    "reads (updateCache offlineConfig empty_client createPost_payload posts_recipe) =
       [(postsQuery, JObj [], Inr None)]"
    by code_simp+
  from h
    updateCache_skips [of Null offlineConfig primed_client posts_recipe
      "JObj [(''createPost'', Null)]" primed_client createPost_payload featured_recipe
      featuredPostsQuery "JObj []" "Thrown ''cache miss''"
      empty_client createPost_payload posts_recipe postsQuery "JObj []"]
  show ?thesis by simp
qed

lemma distinct_keys_field:
  "distinct_keys_props fs \<Longrightarrow> map_of fs k = Some v \<Longrightarrow> distinct_keys v"
  by (induction fs) (auto split: if_splits)

lemma distinct_keys_prop_of:
  "distinct_keys (JObj fs) \<Longrightarrow> distinct_keys (prop_of (JObj fs) k)"
  by (auto simp: prop_of_JObj distinct_keys_field split: option.splits)

lemma defined_props_fields_append:
  "defined_props_fields (fs @ gs) = defined_props_fields fs @ defined_props_fields gs"
  by (induction fs) auto

lemma set_field_prop_of:
  "k \<in> fst ` set fs \<Longrightarrow> set_field k (prop_of (JObj fs) k) fs = fs"
proof -
  assume "k \<in> fst ` set fs"
  then obtain v where v: "map_of fs k = Some v"
    by (metis domD dom_map_of_conv_image_fst)
  then show ?thesis by (simp add: prop_of_JObj set_field_same)
qed

text \<open>
  Assigning to a field the value read from it: nothing changes when the object has the
  field; otherwise the field is added with the value \<^verbatim>\<open>undefined\<close>.
\<close>

lemma set_field_prop_of_deep_equal:
  "deep_equal (JObj (set_field k (prop_of (JObj fs) k) fs)) (JObj fs)"
proof (cases "k \<in> fst ` set fs")
  case True
  then show ?thesis by (simp add: set_field_prop_of deep_equal_def)
next
  case False
  then have "map_of fs k = None" by (simp add: map_of_eq_None_iff)
  then have "prop_of (JObj fs) k = Undefined" by (simp add: prop_of_JObj)
  then show ?thesis
    using False by (simp add: set_field_new deep_equal_def defined_props_fields_append)
qed

text \<open>With the identity updater the recipe assigns to the query field the value it holds.\<close>

lemma recipe_AUTO:
  assumes d: "distinct_keys (JObj root)"
  shows "recipe (getUpdater AUTO idf) qf item root =
           Inr (set_field qf (prop_of (JObj root) qf) root)"
proof -
  let ?v = "prop_of (JObj root) qf"
  have upd: "getUpdater AUTO idf cur item = Inr cur" for cur
    by (simp add: getUpdater_def)
  show ?thesis
  proof (cases "findArrayInObject ?v")
    case None
    then show ?thesis by (simp add: recipe_def Let_def getValueByPath_def upd)
  next
    case (Some p)
    show ?thesis
    proof (cases p)
      case Nil
      with Some show ?thesis by (simp add: recipe_def Let_def getValueByPath_def upd)
    next
      case (Cons k ks)
      from found_path(1) [OF distinct_keys_prop_of [OF d] Some]
      obtain xs where op: "object_path ?v p" and g: "get_path ?v p = Inr (JArr xs)"
        by blast
      from set_get_path [OF op g] have s: "setValueByPath ?v p (JArr xs) = Inr ?v" .
      show ?thesis
        using Some Cons g s by (simp add: recipe_def Let_def getValueByPath_def upd)
    qed
  qed
qed

lemma truthy_opFieldValue: "truthy (opFieldValue data) \<Longrightarrow> truthy data"
proof (rule ccontr)
  assume t: "truthy (opFieldValue data)" and f: "\<not> truthy data"
  from f have "data = Undefined \<or> data = Null \<or> data = JBool False \<or> data = JNum 0
      \<or> data = JStr []"
    by (cases data) simp_all
  then have "opFieldValue data = Undefined"
    by (auto simp: opFieldValue_def opFieldName_def prop_of_def)
  with t show False by simp
qed

text \<open>
  C10. In a call of \<^verbatim>\<open>updateCache\<close> with a truthy value of the operation field of the
  payload, that reaches \<^verbatim>\<open>readQuery\<close> (\<^verbatim>\<open>mapResultToUpdate\<close>, when given, returns;
  \<^verbatim>\<open>updateQuery\<close> is given and its document has a first field), where \<^verbatim>\<open>readQuery\<close>
  returns a non-empty result \<open>root\<close>, with no explicit intent and an operation field
  name that is classified AUTO, and where resolving the identity field raises no
  exception: the resolved updater returns the current value, the cache is read once,
  and \<^verbatim>\<open>writeQuery\<close> is called once, with the query and variables of the read and data
  deep-equal to \<open>root\<close>; what the call raises is what that \<^verbatim>\<open>writeQuery\<close> call raises.
  The data is \<open>root\<close> itself when \<open>root\<close> has the field of the query.
\<close>

theorem auto_writes_back:
  assumes payload: "truthy (opFieldValue data)"
    and item: "mutatedItem data opts = Inr item"
    and uq: "updateQuery opts = Some uq"
    and qf: "getOperationFieldName (query_of uq) = Inr qf"
    and cached: "readQuery client (query_of uq) (variables_of uq) = Inr (Some root)"
    and explicit: "operationType opts = None \<or> operationType opts = Some AUTO"
    and unclassified: "getOpTypeFromOperationName cfg (opFieldName data) = AUTO"
    and idf: "idFieldName cfg (recipeIdField opts) item = Inr idf"
    and d: "distinct_keys (JObj root)"
  shows "getUpdater (resolved_opType cfg data opts) idf cur item = Inr cur
    \<and> reads (updateCache cfg client data opts) =
        [(query_of uq, variables_of uq, Inr (Some root))]
    \<and> writes (updateCache cfg client data opts) =
        [(query_of uq, variables_of uq, JObj (set_field qf (prop_of (JObj root) qf) root))]
    \<and> raised (updateCache cfg client data opts) =
        writeQuery client (query_of uq) (variables_of uq)
          (JObj (set_field qf (prop_of (JObj root) qf) root))
    \<and> deep_equal (JObj (set_field qf (prop_of (JObj root) qf) root)) (JObj root)
    \<and> (qf \<in> fst ` set root \<longrightarrow> set_field qf (prop_of (JObj root) qf) root = root)"
proof -
  have t: "resolved_opType cfg data opts = AUTO"
    using explicit unclassified by (auto simp: resolved_opType_def)
  let ?written = "set_field qf (prop_of (JObj root) qf) root"
  have run: "updateCache cfg client data opts =
      \<lparr> reads = [(query_of uq, variables_of uq, Inr (Some root))],
        writes = [(query_of uq, variables_of uq, JObj ?written)],
        raised = writeQuery client (query_of uq) (variables_of uq) (JObj ?written) \<rparr>"
    unfolding updateCache_after_read [OF truthy_opFieldValue [OF payload] payload item uq qf,
        of cfg client]
    using cached idf by (simp add: Let_def t recipe_AUTO [OF d])
  have e: "deep_equal (JObj ?written) (JObj root)"
    by (rule set_field_prop_of_deep_equal)
  have x: "qf \<in> fst ` set root \<longrightarrow> ?written = root"
    by (simp add: set_field_prop_of)
  have u: "getUpdater (resolved_opType cfg data opts) idf cur item = Inr cur"
    by (simp add: t getUpdater_def)
  from u e x show ?thesis
    unfolding run by simp
qed

theorem auto_writes_back_witness:
  "truthy (opFieldValue likePost_payload)
   \<and> mutatedItem likePost_payload posts_recipe = Inr newPost
   \<and> updateQuery posts_recipe = Some (Document postsQuery)
   \<and> getOperationFieldName postsQuery = Inr ''posts''
   \<and> readQuery primed_client postsQuery (JObj []) =
       Inr (Some [(''posts'', JArr [post1, post2, post3])])
   \<and> operationType posts_recipe = None
   \<and> getOpTypeFromOperationName offlineConfig (opFieldName likePost_payload) = AUTO
   \<and> idFieldName offlineConfig (recipeIdField posts_recipe) newPost = Inr ''id''
   \<and> distinct_keys (JObj [(''posts'', JArr [post1, post2, post3])])
   \<and> reads (updateCache offlineConfig primed_client likePost_payload posts_recipe) =
       [(postsQuery, JObj [], Inr (Some [(''posts'', JArr [post1, post2, post3])]))]
   \<and> writes (updateCache offlineConfig primed_client likePost_payload posts_recipe) =
       [(postsQuery, JObj [], JObj [(''posts'', JArr [post1, post2, post3])])]
   \<and> raised (updateCache offlineConfig primed_client likePost_payload posts_recipe) = None"
proof -
  have payload: "truthy (opFieldValue likePost_payload)"
    by code_simp
  have item: "mutatedItem likePost_payload posts_recipe = Inr newPost"
    by code_simp
  have uq: "updateQuery posts_recipe = Some (Document postsQuery)"
    by (simp add: posts_recipe_def)
  have qf: "getOperationFieldName (query_of (Document postsQuery)) = Inr ''posts''"
    by code_simp
  have cached: "readQuery primed_client (query_of (Document postsQuery))
      (variables_of (Document postsQuery)) = Inr (Some [(''posts'', JArr [post1, post2, post3])])"
    by (simp add: primed_client_def)
  have n: "operationType posts_recipe = None"
    by (simp add: posts_recipe_def)
  have explicit: "operationType posts_recipe = None \<or> operationType posts_recipe = Some AUTO"
    using n by simp
  have unclassified: "getOpTypeFromOperationName offlineConfig (opFieldName likePost_payload) = AUTO"
    by code_simp
  have idf: "idFieldName offlineConfig (recipeIdField posts_recipe) newPost = Inr ''id''"
    by code_simp
  have d: "distinct_keys (JObj [(''posts'', JArr [post1, post2, post3])])"
    by code_simp
  have k: "''posts'' \<in> fst ` set [(''posts'', JArr [post1, post2, post3])]"
    by simp
  have wq: "writeQuery primed_client postsQuery (JObj []) x = None" for x
    by (simp add: primed_client_def)
  note t = auto_writes_back [OF payload item uq qf cached explicit unclassified idf d, of Null]
  from t k have same: "set_field ''posts'' (prop_of (JObj [(''posts'', JArr [post1, post2, post3])]) ''posts'')
      [(''posts'', JArr [post1, post2, post3])] = [(''posts'', JArr [post1, post2, post3])]"
    by blast
  from t have r: "reads (updateCache offlineConfig primed_client likePost_payload posts_recipe) =
       [(postsQuery, JObj [], Inr (Some [(''posts'', JArr [post1, post2, post3])]))]"
    by simp
  from t have w: "writes (updateCache offlineConfig primed_client likePost_payload posts_recipe) =
       [(postsQuery, JObj [], JObj [(''posts'', JArr [post1, post2, post3])])]"
    unfolding same by simp
  from t have e: "raised (updateCache offlineConfig primed_client likePost_payload posts_recipe) = None"
    unfolding same by (simp add: wq)
  have qf': "getOperationFieldName postsQuery = Inr ''posts''"
    using qf by simp
  have cached': "readQuery primed_client postsQuery (JObj []) =
       Inr (Some [(''posts'', JArr [post1, post2, post3])])"
    using cached by simp
  from payload item uq qf' cached' n unclassified idf d r w e show ?thesis
    by (intro conjI)
qed

text \<open>
  The same call under a configuration whose \<^verbatim>\<open>getIdFieldFromObject\<close> throws on the
  item: the value of the operation field is truthy, \<^verbatim>\<open>readQuery\<close> returns the primed
  result, the intent is AUTO, and the call raises the exception of the callback after
  the read, without a \<^verbatim>\<open>writeQuery\<close> call.
\<close>

theorem auto_without_write_counterexample:
  "truthy (opFieldValue likePost_payload)
   \<and> mutatedItem likePost_payload posts_recipe = Inr newPost
   \<and> readQuery primed_client postsQuery (JObj []) =
       Inr (Some [(''posts'', JArr [post1, post2, post3])])
   \<and> operationType posts_recipe = None
   \<and> getOpTypeFromOperationName config_with_throwing_callback (opFieldName likePost_payload)
       = AUTO
   \<and> resolved_opType config_with_throwing_callback likePost_payload posts_recipe = AUTO
   \<and> reads (updateCache config_with_throwing_callback primed_client likePost_payload posts_recipe)
       = [(postsQuery, JObj [], Inr (Some [(''posts'', JArr [post1, post2, post3])]))]
   \<and> writes (updateCache config_with_throwing_callback primed_client likePost_payload posts_recipe)
       = []
   \<and> raised (updateCache config_with_throwing_callback primed_client likePost_payload posts_recipe)
       = Some TypeError"
  by code_simp

section \<open>Options augmentation\<close>

lemma getMutationOptions_keeps:
  "updateQuery opts = None \<or> truthy_option (map_of options ''update'') \<Longrightarrow>
     getMutationOptions opts options = options"
  by (auto simp: getMutationOptions_def)

lemma getMutationOptions_injects:
  "updateQuery opts \<noteq> None \<Longrightarrow> distinct (map fst options) \<Longrightarrow>
   ''update'' \<notin> fst ` set options \<Longrightarrow>
     getMutationOptions opts options = (''update'', InjectedUpdate opts) # options"
proof -
  assume u: "updateQuery opts \<noteq> None" and d: "distinct (map fst options)"
    and n: "''update'' \<notin> fst ` set options"
  from n have "map_of options ''update'' = None" by (simp add: map_of_eq_None_iff)
  then have "getMutationOptions opts options = spread [(''update'', InjectedUpdate opts)] options"
    using u by (auto simp: getMutationOptions_def)
  also have "\<dots> = [(''update'', InjectedUpdate opts)] @ options"
    by (rule spread_fresh [OF d]) (use n in auto)
  finally show ?thesis by simp
qed

lemma getSubscriptionOptions_keeps:
  "updateQuery opts = None \<or> truthy_option (map_of options ''onSubscriptionData'') \<Longrightarrow>
     getSubscriptionOptions opts options = options"
  by (auto simp: getSubscriptionOptions_def)

lemma getSubscriptionOptions_injects:
  "updateQuery opts \<noteq> None \<Longrightarrow> distinct (map fst options) \<Longrightarrow>
   ''onSubscriptionData'' \<notin> fst ` set options \<Longrightarrow>
     getSubscriptionOptions opts options =
       (''onSubscriptionData'', InjectedOnSubscriptionData opts) # options"
proof -
  assume u: "updateQuery opts \<noteq> None" and d: "distinct (map fst options)"
    and n: "''onSubscriptionData'' \<notin> fst ` set options"
  from n have "map_of options ''onSubscriptionData'' = None" by (simp add: map_of_eq_None_iff)
  then have "getSubscriptionOptions opts options =
      spread [(''onSubscriptionData'', InjectedOnSubscriptionData opts)] options"
    using u by (auto simp: getSubscriptionOptions_def)
  also have "\<dots> = [(''onSubscriptionData'', InjectedOnSubscriptionData opts)] @ options"
    by (rule spread_fresh [OF d]) (use n in auto)
  finally show ?thesis by simp
qed

text \<open>An injected callback runs \<^verbatim>\<open>updateCache\<close> with the recipe fields it was created with.\<close>

lemma injected_callback_runs_updateCache:
  "call_injected cfg (InjectedUpdate opts) client data = Some (updateCache cfg client data opts)"
  "call_injected cfg (InjectedOnSubscriptionData opts) client data =
     Some (updateCache cfg client data opts)"
  by simp_all

text \<open>
  C9. The spec has the options returned extended with the injected callback when a
  recipe is supplied and the caller gave no \<^verbatim>\<open>update\<close> (\<^verbatim>\<open>onSubscriptionData\<close>)
  callback. The code spreads the remaining options over the injected callback: for
  \<^verbatim>\<open>{updateQuery: postsQuery, update: undefined}\<close> the guard sees no callback, and the
  result is \<^verbatim>\<open>{update: undefined}\<close>, without the injected callback; likewise for
  \<^verbatim>\<open>onSubscriptionData\<close>. Without the key the callback is injected.
\<close>

theorem injected_callback_overwritten:
  "getMutationOptions posts_recipe [(''update'', Plain Undefined)] = [(''update'', Plain Undefined)]
   \<and> getSubscriptionOptions posts_recipe [(''onSubscriptionData'', Plain Undefined)] =
       [(''onSubscriptionData'', Plain Undefined)]
   \<and> getMutationOptions posts_recipe [] = [(''update'', InjectedUpdate posts_recipe)]
   \<and> getSubscriptionOptions posts_recipe [] =
       [(''onSubscriptionData'', InjectedOnSubscriptionData posts_recipe)]"
  by (simp add: getMutationOptions_def getSubscriptionOptions_def posts_recipe_def spread_def)

end
